theory Spec2Isabelle
  imports Main
begin

section \<open>Text\<close>

text \<open>
  A Python \<open>str\<close> is modelled as a \<open>string\<close>, one \<open>char\<close> per character, so
  \<open>length\<close> is Python's \<open>len\<close> and \<open>take n\<close> is the slice \<open>[:n]\<close>. The model covers
  ASCII text: \<open>lower\<close> maps the letters A to Z and leaves every other character as
  it is, and \<open>strip\<close> removes the ASCII characters for which \<open>str.isspace\<close> holds.
\<close>

definition is_upper :: "char \<Rightarrow> bool" where
  "is_upper c = (65 \<le> (of_char c :: nat) \<and> (of_char c :: nat) \<le> 90)"

definition lower_char :: "char \<Rightarrow> char" where
  "lower_char c = (if is_upper c then char_of ((of_char c :: nat) + 32) else c)"

text \<open>\<open>s.lower()\<close>\<close>

definition lower :: "string \<Rightarrow> string" where
  "lower s = map lower_char s"

text \<open>
  The whitespace of \<open>str.strip()\<close>: tab, line feed, vertical tab, form feed, carriage
  return, the four separators 0x1C to 0x1F, and the space.
\<close>

definition is_space :: "char \<Rightarrow> bool" where
  "is_space c = (let n = (of_char c :: nat) in (9 \<le> n \<and> n \<le> 13) \<or> (28 \<le> n \<and> n \<le> 32))"

text \<open>\<open>s.strip()\<close>\<close>

definition strip :: "string \<Rightarrow> string" where
  "strip s = rev (dropWhile is_space (rev (dropWhile is_space s)))"

text \<open>\<open>s.replace(" ", "-")\<close>: the pattern is one character, so every space is replaced.\<close>

definition replace_space :: "string \<Rightarrow> string" where
  "replace_space s = map (\<lambda>c. if c = CHR '' '' then CHR ''-'' else c) s"

section \<open>Values, documents, errors\<close>

text \<open>
  The values the handlers put into a document or read back from one: \<open>None\<close>, a
  \<open>str\<close>, a \<open>bool\<close>, a list of \<open>str\<close> and a \<open>datetime\<close> (a point on the clock).
\<close>

datatype val = VNone | VStr string | VBool bool | VList "string list" | VTime nat

type_synonym fields = "(string \<times> val) list"

text \<open>
  A stored document: the identifier the store gave it (its \<open>_id\<close>) and its fields in
  insertion order.
\<close>

record document =
  doc_id :: nat
  doc_fields :: fields

text \<open>\<open>p.get(k)\<close> and \<open>p.get(k, default)\<close> on a document read from the store.\<close>

definition get_default :: "document \<Rightarrow> string \<Rightarrow> val \<Rightarrow> val" where
  "get_default p k dflt = (case map_of (doc_fields p) k of None \<Rightarrow> dflt | Some v \<Rightarrow> v)"

definition get :: "document \<Rightarrow> string \<Rightarrow> val" where
  "get p k = get_default p k VNone"

text \<open>
  What a handler raises: an \<open>HTTPException\<close> with its status code and detail, or the
  failure of the store adapter, which the handlers do not catch.
\<close>

datatype error = HTTPException nat string | StoreUnavailable

text \<open>The spec's names for the two errors the handlers raise themselves.\<close>

definition DuplicateEmail :: error where
  "DuplicateEmail = HTTPException 400 ''Email already registered''"

definition InvalidCredentials :: error where
  "InvalidCredentials = HTTPException 401 ''Invalid credentials''"

text \<open>HTTP status classes: a client error is 4xx, and 401 is the authorization error.\<close>

fun is_client_error :: "error \<Rightarrow> bool" where
  "is_client_error (HTTPException code _) = (400 \<le> code \<and> code < 500)"
| "is_client_error StoreUnavailable = False"

fun is_authorization_error :: "error \<Rightarrow> bool" where
  "is_authorization_error (HTTPException code _) = (code = 401)"
| "is_authorization_error StoreUnavailable = False"

section \<open>Document store adapter\<close>

text \<open>
  The module \<open>database\<close> (\<open>db\<close>, \<open>create_document\<close>, \<open>get_documents\<close>) is imported by
  \<open>main.py\<close> and is not among the source files. Its state is modelled as whether the
  backend connection is there, the documents of each named collection in storage
  order, and the next identifier the store will hand out.
\<close>

record store =
  connected :: bool
  colls :: "string \<Rightarrow> document list"
  next_id :: nat

text \<open>
  Modelled from the spec: the rendering of a generated identifier as text
  (\<open>create\<close> returns "an opaque unique identifier"; the handlers return it and
  \<open>list_posts\<close> applies \<open>str\<close> to \<open>_id\<close>). The identifier is written in decimal.
\<close>

function str_oid :: "nat \<Rightarrow> string" where
  "str_oid n = (if n < 10 then [''0123456789'' ! n]
                else str_oid (n div 10) @ [''0123456789'' ! (n mod 10)])"
  by pat_completeness auto
termination
  by (relation "measure id") auto

declare str_oid.simps [simp del]

text \<open>
  Modelled from the spec: the equality filter of \<open>find\<close>, "a mapping of field name
  to expected value"; a document matches when every named field holds the expected
  value.
\<close>

definition matches :: "fields \<Rightarrow> document \<Rightarrow> bool" where
  "matches flt d = list_all (\<lambda>(k, v). map_of (doc_fields d) k = Some v) flt"

text \<open>
  Modelled from the spec: \<open>get_documents(collection_name, filter, limit)\<close> of the
  missing module \<open>database\<close>. "Returns matching records in storage order (no defined
  sort), truncated to limit if given, or empty sequence if none match"; "no side
  effects"; it fails with \<open>StoreUnavailable\<close> "if the backend connection is absent or
  unreachable".
\<close>

definition get_documents :: "string \<Rightarrow> fields \<Rightarrow> nat option \<Rightarrow> store \<Rightarrow> error + document list" where
  "get_documents c flt limit s =
     (if \<not> connected s then Inl StoreUnavailable
      else let found = filter (matches flt) (colls s c)
           in Inr (case limit of None \<Rightarrow> found | Some n \<Rightarrow> take n found))"

text \<open>
  Modelled from the spec: \<open>create_document(collection_name, record)\<close> of the missing
  module \<open>database\<close>. It "accepts a validated record object, assigns it to the named
  collection, and returns an opaque unique identifier; no uniqueness or referential
  checks are performed by this layer"; it "durably persists one record" and fails
  with \<open>StoreUnavailable\<close> as \<open>find\<close> does. The record arrives as its fields.
\<close>

definition create_document :: "string \<Rightarrow> fields \<Rightarrow> store \<Rightarrow> (error + string) \<times> store" where
  "create_document c flds s =
     (if \<not> connected s then (Inl StoreUnavailable, s)
      else (Inr (str_oid (next_id s)),
            s\<lparr>colls := (colls s)(c := colls s c @ [\<lparr>doc_id = next_id s, doc_fields = flds\<rparr>]),
              next_id := Suc (next_id s)\<rparr>))"

section \<open>Record schemas (schemas.py)\<close>

text \<open>\<open>class User\<close>: the fields of the schema, in its order.\<close>

record User =
  u_name :: string
  u_email :: string
  u_password_hash :: string
  u_avatar_url :: "string option"
  u_role :: string
  u_is_active :: bool

text \<open>
  \<open>User(name=..., email=..., password_hash=...)\<close>: the three required fields are
  given, the others take the defaults of their \<open>Field\<close>.
\<close>

definition mk_User :: "string \<Rightarrow> string \<Rightarrow> string \<Rightarrow> User" where
  "mk_User n e h =
     \<lparr>u_name = n, u_email = e, u_password_hash = h,
      u_avatar_url = None, u_role = ''user'', u_is_active = True\<rparr>"

definition opt_val :: "string option \<Rightarrow> val" where
  "opt_val x = (case x of None \<Rightarrow> VNone | Some s \<Rightarrow> VStr s)"

text \<open>The record as the store receives it: one field per schema field.\<close>

definition User_fields :: "User \<Rightarrow> fields" where
  "User_fields u =
     [(''name'', VStr (u_name u)), (''email'', VStr (u_email u)),
      (''password_hash'', VStr (u_password_hash u)), (''avatar_url'', opt_val (u_avatar_url u)),
      (''role'', VStr (u_role u)), (''is_active'', VBool (u_is_active u))]"

text \<open>\<open>class BlogPost\<close>\<close>

record BlogPost =
  b_title :: string
  b_slug :: string
  b_excerpt :: "string option"
  b_content :: string
  b_author_name :: string
  b_cover_image :: "string option"
  b_tags :: "string list"
  b_status :: string
  b_published_at :: "nat option"

definition BlogPost_fields :: "BlogPost \<Rightarrow> fields" where
  "BlogPost_fields b =
     [(''title'', VStr (b_title b)), (''slug'', VStr (b_slug b)),
      (''excerpt'', opt_val (b_excerpt b)), (''content'', VStr (b_content b)),
      (''author_name'', VStr (b_author_name b)), (''cover_image'', opt_val (b_cover_image b)),
      (''tags'', VList (b_tags b)), (''status'', VStr (b_status b)),
      (''published_at'', (case b_published_at b of None \<Rightarrow> VNone | Some t \<Rightarrow> VTime t))]"

text \<open>\<open>class ContactMessage\<close>\<close>

record ContactMessage =
  c_name :: string
  c_email :: string
  c_company :: "string option"
  c_message :: string
  c_status :: string

text \<open>
  \<open>ContactMessage(name=..., email=..., company=..., message=...)\<close>: \<open>status\<close> takes
  its default.
\<close>

definition mk_ContactMessage :: "string \<Rightarrow> string \<Rightarrow> string option \<Rightarrow> string \<Rightarrow> ContactMessage" where
  "mk_ContactMessage n e co m =
     \<lparr>c_name = n, c_email = e, c_company = co, c_message = m, c_status = ''new''\<rparr>"

definition ContactMessage_fields :: "ContactMessage \<Rightarrow> fields" where
  "ContactMessage_fields c =
     [(''name'', VStr (c_name c)), (''email'', VStr (c_email c)),
      (''company'', opt_val (c_company c)), (''message'', VStr (c_message c)),
      (''status'', VStr (c_status c))]"

section \<open>Registration and login (main.py)\<close>

record RegisterPayload =
  rp_name :: string
  rp_email :: string
  rp_password :: string

record RegisterResponse =
  rr_id :: string
  rr_name :: string
  rr_email :: string

text \<open>
  \<open>register_user\<close>: the lookup, the guard \<open>if existing\<close> (a non-empty list), the
  \<open>User\<close> built from the payload, the insert, the response. An exception of the
  store leaves the handler as it is.
\<close>

definition register_user :: "RegisterPayload \<Rightarrow> store \<Rightarrow> (error + RegisterResponse) \<times> store" where
  "register_user payload s =
     (case get_documents ''user'' [(''email'', VStr (lower (rp_email payload)))] (Some 1) s of
        Inl e \<Rightarrow> (Inl e, s)
      | Inr existing \<Rightarrow>
          if existing \<noteq> [] then (Inl (HTTPException 400 ''Email already registered''), s)
          else
            let user = mk_User (rp_name payload) (lower (rp_email payload))
                         (''sha256:'' @ rp_password payload)
            in (case create_document ''user'' (User_fields user) s of
                  (Inl e, s') \<Rightarrow> (Inl e, s')
                | (Inr user_id, s') \<Rightarrow>
                    (Inr \<lparr>rr_id = user_id, rr_name = u_name user, rr_email = u_email user\<rparr>, s')))"

record LoginPayload =
  lp_email :: string
  lp_password :: string

text \<open>\<open>{"token": ..., "user": {"name": ..., "email": ...}}\<close>, the inner fields read with \<open>get\<close>.\<close>

record LoginResponse =
  lr_token :: string
  lr_user_name :: val
  lr_user_email :: val

definition login_user :: "LoginPayload \<Rightarrow> store \<Rightarrow> (error + LoginResponse) \<times> store" where
  "login_user payload s =
     (case get_documents ''user'' [(''email'', VStr (lower (lp_email payload)))] (Some 1) s of
        Inl e \<Rightarrow> (Inl e, s)
      | Inr user_docs \<Rightarrow>
          (case user_docs of
             [] \<Rightarrow> (Inl (HTTPException 401 ''Invalid credentials''), s)
           | user # _ \<Rightarrow>
               if get user ''password_hash'' \<noteq> VStr (''sha256:'' @ lp_password payload)
               then (Inl (HTTPException 401 ''Invalid credentials''), s)
               else (Inr \<lparr>lr_token = ''demo-token'', lr_user_name = get user ''name'',
                          lr_user_email = get user ''email''\<rparr>, s)))"

section \<open>Blog (main.py)\<close>

text \<open>The light-weight view of a post that \<open>list_posts\<close> builds.\<close>

record PostView =
  pv_id :: string
  pv_title :: val
  pv_slug :: val
  pv_excerpt :: val
  pv_author_name :: val
  pv_cover_image :: val
  pv_tags :: val
  pv_published_at :: val

text \<open>The dictionary appended for a post \<open>p\<close>; \<open>str(p.get("_id"))\<close> is the identifier as text.\<close>

definition post_view :: "document \<Rightarrow> PostView" where
  "post_view p =
     \<lparr>pv_id = str_oid (doc_id p), pv_title = get p ''title'', pv_slug = get p ''slug'',
      pv_excerpt = get p ''excerpt'', pv_author_name = get p ''author_name'',
      pv_cover_image = get p ''cover_image'', pv_tags = get_default p ''tags'' (VList []),
      pv_published_at = get p ''published_at''\<rparr>"

definition list_posts :: "store \<Rightarrow> error + PostView list" where
  "list_posts s =
     (case get_documents ''blogpost'' [(''status'', VStr ''published'')] None s of
        Inl e \<Rightarrow> Inl e
      | Inr posts \<Rightarrow> Inr (map post_view posts))"

record BlogCreatePayload =
  bp_title :: string
  bp_content :: string
  bp_author_name :: string
  bp_tags :: "string list option"

record BlogCreateResponse =
  br_id :: string
  br_slug :: string

text \<open>\<open>payload.title.lower().strip().replace(" ", "-")\<close>\<close>

definition slug_of :: "string \<Rightarrow> string" where
  "slug_of title = replace_space (strip (lower title))"

text \<open>\<open>(content[:140] + "...") if len(content) > 140 else content\<close>\<close>

definition excerpt_of :: "string \<Rightarrow> string" where
  "excerpt_of content = (if length content > 140 then take 140 content @ ''...'' else content)"

text \<open>
  \<open>create_post\<close>; \<open>now\<close> is what \<open>datetime.utcnow()\<close> returns at the call, and
  \<open>payload.tags or []\<close> is the empty list for \<open>None\<close>.
\<close>

definition create_post :: "BlogCreatePayload \<Rightarrow> nat \<Rightarrow> store \<Rightarrow> (error + BlogCreateResponse) \<times> store" where
  "create_post payload now s =
     (let slug = slug_of (bp_title payload);
          post = \<lparr>b_title = bp_title payload, b_slug = slug,
                  b_excerpt = Some (excerpt_of (bp_content payload)),
                  b_content = bp_content payload, b_author_name = bp_author_name payload,
                  b_cover_image = None,
                  b_tags = (case bp_tags payload of None \<Rightarrow> [] | Some ts \<Rightarrow> ts),
                  b_status = ''published'', b_published_at = Some now\<rparr>
      in (case create_document ''blogpost'' (BlogPost_fields post) s of
            (Inl e, s') \<Rightarrow> (Inl e, s')
          | (Inr post_id, s') \<Rightarrow> (Inr \<lparr>br_id = post_id, br_slug = slug\<rparr>, s')))"

section \<open>Contact (main.py)\<close>

record ContactPayload =
  cp_name :: string
  cp_email :: string
  cp_company :: "string option"
  cp_message :: string

record ContactResponse =
  cr_id :: string
  cr_status :: string

definition submit_contact :: "ContactPayload \<Rightarrow> store \<Rightarrow> (error + ContactResponse) \<times> store" where
  "submit_contact payload s =
     (let entry = mk_ContactMessage (cp_name payload) (cp_email payload) (cp_company payload)
                    (cp_message payload)
      in (case create_document ''contactmessage'' (ContactMessage_fields entry) s of
            (Inl e, s') \<Rightarrow> (Inl e, s')
          | (Inr contact_id, s') \<Rightarrow> (Inr \<lparr>cr_id = contact_id, cr_status = ''received''\<rparr>, s')))"

section \<open>Health check (main.py)\<close>

text \<open>
  The three markers of the status texts lie outside ASCII; each is written as the
  bytes of its UTF-8 encoding (U+2705, U+274C, and U+26A0 followed by U+FE0F).
\<close>

definition check_mark :: string where
  "check_mark = [CHR 0xE2, CHR 0x9C, CHR 0x85]"

definition cross_mark :: string where
  "cross_mark = [CHR 0xE2, CHR 0x9D, CHR 0x8C]"

definition warn_mark :: string where
  "warn_mark = [CHR 0xE2, CHR 0x9A, CHR 0xA0, CHR 0xEF, CHR 0xB8, CHR 0x8F]"

text \<open>
  What the handler reads: the handle \<open>db\<close>, which is \<open>None\<close> or a database whose
  \<open>list_collection_names()\<close> either returns the names or raises an exception \<open>e\<close>
  (kept as the text \<open>str(e)\<close>), and the two environment variables.
\<close>

datatype listing = Raises string | Names "string list"

record environ =
  DATABASE_URL :: "string option"
  DATABASE_NAME :: "string option"

record HealthResponse =
  hr_backend :: string
  hr_database :: string
  hr_database_url :: "string option"
  hr_database_name :: "string option"
  hr_connection_status :: string
  hr_collections :: "string list"

text \<open>\<open>check_mark + " Set" if os.getenv(name) else cross_mark + " Not Set"\<close>: an unset or empty variable is false.\<close>

definition set_flag :: "string option \<Rightarrow> string" where
  "set_flag v = (if v \<noteq> None \<and> v \<noteq> Some [] then check_mark @ '' Set'' else cross_mark @ '' Not Set'')"

text \<open>
  \<open>test_database\<close>. The handler's result is a sum like that of the other handlers,
  \<open>Inl\<close> standing for an exception that leaves it. The inner \<open>try\<close> is the case
  distinction on the listing; nothing else in the body raises, so the outer
  \<open>except\<close> has nothing to catch.
\<close>

definition test_database :: "listing option \<Rightarrow> environ \<Rightarrow> error + HealthResponse" where
  "test_database db env =
     (let response = \<lparr>hr_backend = check_mark @ '' Running'',
                       hr_database = cross_mark @ '' Not Available'',
                       hr_database_url = None, hr_database_name = None,
                       hr_connection_status = ''Not Connected'', hr_collections = []\<rparr>
      in case db of
           Some h \<Rightarrow>
             let response = response\<lparr>hr_database := check_mark @ '' Available'',
                              hr_database_url := Some (set_flag (DATABASE_URL env)),
                              hr_database_name := Some (set_flag (DATABASE_NAME env)),
                              hr_connection_status := ''Connected''\<rparr>
             in (case h of
                   Names collections \<Rightarrow>
                     Inr (response\<lparr>hr_collections := take 10 collections,
                            hr_database := check_mark @ '' Connected & Working''\<rparr>)
                 | Raises e \<Rightarrow>
                     Inr (response\<lparr>hr_database := warn_mark @ ''  Connected but Error: '' @ take 50 e\<rparr>))
         | None \<Rightarrow> Inr (response\<lparr>hr_database := warn_mark @ ''  Available but not initialized''\<rparr>))"

section \<open>Facts about text and the store adapter\<close>




lemma matches_single: "matches [(k, VStr x)] d \<longleftrightarrow> get d k = VStr x"
  by (auto simp: matches_def get_def get_default_def split: option.splits)

lemma get_documents_connected:
  "connected s \<Longrightarrow> get_documents c flt limit s =
     Inr (case limit of None \<Rightarrow> filter (matches flt) (colls s c)
          | Some n \<Rightarrow> take n (filter (matches flt) (colls s c)))"
  by (simp add: get_documents_def Let_def)

lemma get_documents_disconnected:
  "\<not> connected s \<Longrightarrow> get_documents c flt limit s = Inl StoreUnavailable"
  by (simp add: get_documents_def)

text \<open>A lookup by one field with limit 1 is empty exactly when no document holds the value.\<close>

lemma lookup_none:
  "connected s \<Longrightarrow> \<forall>d\<in>set (colls s c). get d k \<noteq> VStr x \<Longrightarrow>
   get_documents c [(k, VStr x)] (Some 1) s = Inr []"
  by (simp add: get_documents_connected matches_single filter_empty_conv)

lemma lookup_some:
  "connected s \<Longrightarrow> d \<in> set (colls s c) \<Longrightarrow> get d k = VStr x \<Longrightarrow>
   \<exists>d'. get_documents c [(k, VStr x)] (Some 1) s = Inr [d'] \<and>
        d' \<in> set (colls s c) \<and> get d' k = VStr x"
proof -
  assume a: "connected s" "d \<in> set (colls s c)" "get d k = VStr x"
  let ?F = "filter (matches [(k, VStr x)]) (colls s c)"
  from a have "d \<in> set ?F" by (simp add: matches_single)
  then obtain d' ds where F: "?F = d' # ds" by (cases ?F) auto
  then have "d' \<in> set ?F" by simp
  then have "d' \<in> set (colls s c) \<and> get d' k = VStr x" by (simp add: matches_single)
  with a(1) F show ?thesis by (simp add: get_documents_connected)
qed

lemma lookup_result:
  "get_documents c [(k, VStr x)] limit s = Inr ds \<Longrightarrow> d \<in> set ds \<Longrightarrow>
   d \<in> set (colls s c) \<and> get d k = VStr x"
  by (auto simp: get_documents_def Let_def matches_single
      split: if_splits option.splits dest: in_set_takeD)

lemma create_document_connected:
  "connected s \<Longrightarrow> create_document c flds s =
     (Inr (str_oid (next_id s)),
      s\<lparr>colls := (colls s)(c := colls s c @ [\<lparr>doc_id = next_id s, doc_fields = flds\<rparr>]),
        next_id := Suc (next_id s)\<rparr>)"
  by (simp add: create_document_def)

text \<open>The lookup with limit 1 returns the first match in storage order.\<close>

lemma take1_filter_find:
  "List.find P xs = Some d \<Longrightarrow> take (Suc 0) (filter P xs) = [d]"
  by (induction xs) (auto split: if_splits)

lemma find_in_set: "List.find P xs = Some d \<Longrightarrow> d \<in> set xs \<and> P d"
  by (induction xs) (auto split: if_splits)

lemma find_unique:
  "d \<in> set xs \<Longrightarrow> P d \<Longrightarrow> \<forall>a\<in>set xs. P a \<longrightarrow> a = d \<Longrightarrow> List.find P xs = Some d"
proof (induction xs)
  case Nil
  then show ?case by simp
next
  case (Cons a xs)
  show ?case
  proof (cases "P a")
    case True
    with Cons.prems(3) have "a = d" by simp
    with True show ?thesis by simp
  next
    case False
    with Cons.prems(1,2) have "d \<in> set xs" by auto
    moreover from Cons.prems(3) have "\<forall>b\<in>set xs. P b \<longrightarrow> b = d" by simp
    ultimately have "List.find P xs = Some d" using Cons.IH Cons.prems(2) by blast
    with False show ?thesis by simp
  qed
qed

lemma lookup_first:
  assumes "connected s"
      and "List.find (\<lambda>a. get a k = VStr x) (colls s c) = Some d"
  shows "get_documents c [(k, VStr x)] (Some 1) s = Inr [d]"
proof -
  have "matches [(k, VStr x)] = (\<lambda>a. get a k = VStr x)"
    by (rule ext) (rule matches_single)
  then show ?thesis
    using assms by (simp add: get_documents_connected take1_filter_find)
qed

text \<open>The whitespace of \<open>strip\<close>, character by character, and what \<open>strip\<close> and \<open>lower\<close> compute.\<close>

lemma char_of_ws:
  "char_of (9::nat) = CHR 0x09" "char_of (10::nat) = CHR 0x0A"
  "char_of (11::nat) = CHR 0x0B" "char_of (12::nat) = CHR 0x0C"
  "char_of (13::nat) = CHR 0x0D" "char_of (28::nat) = CHR 0x1C"
  "char_of (29::nat) = CHR 0x1D" "char_of (30::nat) = CHR 0x1E"
  "char_of (31::nat) = CHR 0x1F" "char_of (32::nat) = CHR '' ''"
  by code_simp+

lemma is_space_iff:
  "is_space c \<longleftrightarrow>
     c \<in> set [CHR 0x09, CHR 0x0A, CHR 0x0B, CHR 0x0C, CHR 0x0D,
              CHR 0x1C, CHR 0x1D, CHR 0x1E, CHR 0x1F, CHR '' '']"
proof
  assume sp: "is_space c"
  define n where "n = (of_char c :: nat)"
  from sp have "(9 \<le> n \<and> n \<le> 13) \<or> (28 \<le> n \<and> n \<le> 32)"
    by (simp only: is_space_def Let_def n_def)
  then have "n = 9 \<or> n = 10 \<or> n = 11 \<or> n = 12 \<or> n = 13
           \<or> n = 28 \<or> n = 29 \<or> n = 30 \<or> n = 31 \<or> n = 32"
    by arith
  moreover have "c = char_of n" by (simp only: n_def char_of_char)
  ultimately have "c = CHR 0x09 \<or> c = CHR 0x0A \<or> c = CHR 0x0B \<or> c = CHR 0x0C \<or> c = CHR 0x0D
           \<or> c = CHR 0x1C \<or> c = CHR 0x1D \<or> c = CHR 0x1E \<or> c = CHR 0x1F \<or> c = CHR '' ''"
    using char_of_ws by metis
  then show "c \<in> set [CHR 0x09, CHR 0x0A, CHR 0x0B, CHR 0x0C, CHR 0x0D,
              CHR 0x1C, CHR 0x1D, CHR 0x1E, CHR 0x1F, CHR '' '']"
    by (simp only: set_simps insert_iff empty_iff) blast
next
  assume "c \<in> set [CHR 0x09, CHR 0x0A, CHR 0x0B, CHR 0x0C, CHR 0x0D,
              CHR 0x1C, CHR 0x1D, CHR 0x1E, CHR 0x1F, CHR '' '']"
  then have "c = CHR 0x09 \<or> c = CHR 0x0A \<or> c = CHR 0x0B \<or> c = CHR 0x0C \<or> c = CHR 0x0D
           \<or> c = CHR 0x1C \<or> c = CHR 0x1D \<or> c = CHR 0x1E \<or> c = CHR 0x1F \<or> c = CHR '' ''"
    by (simp only: set_simps insert_iff empty_iff) blast
  moreover have "is_space CHR 0x09" "is_space CHR 0x0A" "is_space CHR 0x0B" "is_space CHR 0x0C"
    "is_space CHR 0x0D" "is_space CHR 0x1C" "is_space CHR 0x1D" "is_space CHR 0x1E"
    "is_space CHR 0x1F" "is_space CHR '' ''"
    by (simp_all add: is_space_def)
  ultimately show "is_space c" by blast
qed

lemma last_dropWhile: "dropWhile P xs \<noteq> [] \<Longrightarrow> last (dropWhile P xs) = last xs"
  by (induction xs) (auto split: if_splits)

lemma strip_decompose:
  "\<exists>pre post. s = pre @ strip s @ post
      \<and> (\<forall>c\<in>set pre. is_space c) \<and> (\<forall>c\<in>set post. is_space c)
      \<and> (strip s \<noteq> [] \<longrightarrow> \<not> is_space (hd (strip s)) \<and> \<not> is_space (last (strip s)))"
proof -
  define t where "t = dropWhile is_space s"
  define pre where "pre = takeWhile is_space s"
  define post where "post = rev (takeWhile is_space (rev t))"
  have core: "strip s = rev (dropWhile is_space (rev t))"
    by (simp add: strip_def t_def)
  have "rev (takeWhile is_space (rev t) @ dropWhile is_space (rev t)) = rev (rev t)"
    by (simp only: takeWhile_dropWhile_id)
  then have "rev (dropWhile is_space (rev t)) @ rev (takeWhile is_space (rev t)) = t"
    by (simp only: rev_append rev_rev_ident)
  then have t: "strip s @ post = t" by (simp only: core post_def)
  have "pre @ t = s" by (simp only: pre_def t_def takeWhile_dropWhile_id)
  with t have s: "s = pre @ strip s @ post" by (simp only:)
  have p1: "\<forall>c\<in>set pre. is_space c"
    by (auto simp: pre_def dest: set_takeWhileD)
  have p2: "\<forall>c\<in>set post. is_space c"
    by (auto simp: post_def dest: set_takeWhileD)
  have ends: "\<not> is_space (hd (strip s)) \<and> \<not> is_space (last (strip s))" if ne: "strip s \<noteq> []"
  proof -
    from ne have d: "dropWhile is_space (rev t) \<noteq> []" by (simp add: core)
    then have tne: "t \<noteq> []" by auto
    have "last (strip s) = hd (dropWhile is_space (rev t))"
      by (simp add: core last_rev)
    then have l: "\<not> is_space (last (strip s))" using hd_dropWhile [OF d] by simp
    have "hd (strip s) = last (dropWhile is_space (rev t))"
      by (simp add: core hd_rev)
    also have "\<dots> = last (rev t)" by (rule last_dropWhile [OF d])
    also have "\<dots> = hd t" by (simp add: last_rev)
    finally have "hd (strip s) = hd (dropWhile is_space s)" by (simp add: t_def)
    moreover have "\<not> is_space (hd (dropWhile is_space s))"
      using tne hd_dropWhile [of is_space s] unfolding t_def by blast
    ultimately show ?thesis using l by simp
  qed
  have e: "strip s \<noteq> [] \<longrightarrow> \<not> is_space (hd (strip s)) \<and> \<not> is_space (last (strip s))"
    by (rule impI) (rule ends)
  have "s = pre @ strip s @ post
      \<and> (\<forall>c\<in>set pre. is_space c) \<and> (\<forall>c\<in>set post. is_space c)
      \<and> (strip s \<noteq> [] \<longrightarrow> \<not> is_space (hd (strip s)) \<and> \<not> is_space (last (strip s)))"
    by (rule conjI [OF s conjI [OF p1 conjI [OF p2 e]]])
  then show ?thesis
    by (intro exI)
qed

lemma lower_unfold:
  "lower t = map (\<lambda>c. if 65 \<le> (of_char c :: nat) \<and> (of_char c :: nat) \<le> 90
                       then char_of ((of_char c :: nat) + 32) else c) t"
  by (simp add: lower_def lower_char_def is_upper_def)

section \<open>Registration\<close>

lemma register_user_found:
  "get_documents ''user'' [(''email'', VStr (lower (rp_email p)))] (Some 1) s = Inr (d # ds) \<Longrightarrow>
   register_user p s = (Inl (HTTPException 400 ''Email already registered''), s)"
  by (simp add: register_user_def)

lemma register_user_fresh:
  "connected s \<Longrightarrow>
   get_documents ''user'' [(''email'', VStr (lower (rp_email p)))] (Some 1) s = Inr [] \<Longrightarrow>
   register_user p s =
     (Inr \<lparr>rr_id = str_oid (next_id s), rr_name = rp_name p, rr_email = lower (rp_email p)\<rparr>,
      s\<lparr>colls := (colls s)(''user'' := colls s ''user'' @
           [\<lparr>doc_id = next_id s,
             doc_fields =
               [(''name'', VStr (rp_name p)), (''email'', VStr (lower (rp_email p))),
                (''password_hash'', VStr (''sha256:'' @ rp_password p)), (''avatar_url'', VNone),
                (''role'', VStr ''user''), (''is_active'', VBool True)]\<rparr>]),
        next_id := Suc (next_id s)\<rparr>)"
  by (simp add: register_user_def create_document_connected mk_User_def User_fields_def
      opt_val_def)

lemma register_user_success:
  assumes "register_user p s = (Inr r, s')"
  shows "connected s \<and>
         get_documents ''user'' [(''email'', VStr (lower (rp_email p)))] (Some 1) s = Inr []"
  using assms
  by (auto simp: register_user_def get_documents_def create_document_def Let_def
      split: if_splits sum.splits prod.splits)

text \<open>
  Claim C1. When the store is reachable and some stored account holds the lowercased
  email of the payload, \<open>register_user\<close> fails with \<open>DuplicateEmail\<close>, the client error
  400 "Email already registered", and leaves the store as it was. In particular, after
  a registration that succeeded, a second registration whose email lowercases to the
  same text fails with \<open>DuplicateEmail\<close>.
\<close>

theorem register_user_duplicate:
  assumes "connected s"
  shows "(d \<in> set (colls s ''user'') \<and> get d ''email'' = VStr (lower (rp_email p)) \<longrightarrow>
            register_user p s = (Inl DuplicateEmail, s))
       \<and> (register_user p s = (Inr r, s') \<and> lower (rp_email q) = lower (rp_email p) \<longrightarrow>
            register_user q s' = (Inl DuplicateEmail, s'))
       \<and> DuplicateEmail = HTTPException 400 ''Email already registered''
       \<and> is_client_error DuplicateEmail"
proof (intro conjI impI)
  assume "d \<in> set (colls s ''user'') \<and> get d ''email'' = VStr (lower (rp_email p))"
  with assms lookup_some [of s d "''user''" "''email''" "lower (rp_email p)"]
  obtain d' where "get_documents ''user'' [(''email'', VStr (lower (rp_email p)))] (Some 1) s = Inr [d']"
    by blast
  then show "register_user p s = (Inl DuplicateEmail, s)"
    by (simp add: register_user_found DuplicateEmail_def)
next
  assume a: "register_user p s = (Inr r, s') \<and> lower (rp_email q) = lower (rp_email p)"
  then have fresh: "get_documents ''user'' [(''email'', VStr (lower (rp_email p)))] (Some 1) s = Inr []"
    using register_user_success by blast
  let ?d = "\<lparr>doc_id = next_id s,
             doc_fields =
               [(''name'', VStr (rp_name p)), (''email'', VStr (lower (rp_email p))),
                (''password_hash'', VStr (''sha256:'' @ rp_password p)), (''avatar_url'', VNone),
                (''role'', VStr ''user''), (''is_active'', VBool True)]\<rparr>"
  from a assms fresh have s': "s' = s\<lparr>colls := (colls s)(''user'' := colls s ''user'' @ [?d]),
        next_id := Suc (next_id s)\<rparr>"
    by (simp add: register_user_fresh)
  have c: "connected s'" using assms by (simp add: s')
  have m: "?d \<in> set (colls s' ''user'')" by (simp add: s')
  have g: "get ?d ''email'' = VStr (lower (rp_email q))"
    using a by (simp add: get_def get_default_def)
  from lookup_some [OF c m g]
  obtain d' where "get_documents ''user'' [(''email'', VStr (lower (rp_email q)))] (Some 1) s' = Inr [d']"
    by blast
  then show "register_user q s' = (Inl DuplicateEmail, s')"
    by (simp add: register_user_found DuplicateEmail_def)
qed (simp_all add: DuplicateEmail_def)

theorem register_user_duplicate_witness:
  "connected \<lparr>connected = True,
      colls = (\<lambda>_. [])(''user'' := [\<lparr>doc_id = 0, doc_fields = [(''email'', VStr ''ann@x.org'')]\<rparr>]),
      next_id = 1\<rparr>
   \<and> get \<lparr>doc_id = 0, doc_fields = [(''email'', VStr ''ann@x.org'')]\<rparr> ''email''
       = VStr (lower ''Ann@X.org'')
   \<and> register_user \<lparr>rp_name = ''Bob'', rp_email = ''Ann@X.org'', rp_password = ''pw''\<rparr>
        \<lparr>connected = True,
          colls = (\<lambda>_. [])(''user'' := [\<lparr>doc_id = 0, doc_fields = [(''email'', VStr ''ann@x.org'')]\<rparr>]),
          next_id = 1\<rparr>
     = (Inl (HTTPException 400 ''Email already registered''),
        \<lparr>connected = True,
          colls = (\<lambda>_. [])(''user'' := [\<lparr>doc_id = 0, doc_fields = [(''email'', VStr ''ann@x.org'')]\<rparr>]),
          next_id = 1\<rparr>)
   \<and> fst (register_user \<lparr>rp_name = ''Ann'', rp_email = ''Ann@X.org'', rp_password = ''pw''\<rparr>
        \<lparr>connected = True, colls = (\<lambda>_. []), next_id = 0\<rparr>)
     = Inr \<lparr>rr_id = str_oid 0, rr_name = ''Ann'', rr_email = ''ann@x.org''\<rparr>
   \<and> lower ''ANN@x.org'' = lower ''Ann@X.org''
   \<and> fst (register_user \<lparr>rp_name = ''Bob'', rp_email = ''ANN@x.org'', rp_password = ''pw2''\<rparr>
        (snd (register_user \<lparr>rp_name = ''Ann'', rp_email = ''Ann@X.org'', rp_password = ''pw''\<rparr>
           \<lparr>connected = True, colls = (\<lambda>_. []), next_id = 0\<rparr>)))
     = Inl (HTTPException 400 ''Email already registered'')"
proof -
  let ?d = "\<lparr>doc_id = 0, doc_fields = [(''email'', VStr ''ann@x.org'')]\<rparr>"
  let ?s = "\<lparr>connected = True, colls = (\<lambda>_. [])(''user'' := [?d]), next_id = 1\<rparr>"
  let ?p = "\<lparr>rp_name = ''Bob'', rp_email = ''Ann@X.org'', rp_password = ''pw''\<rparr>"
  let ?e = "\<lparr>connected = True, colls = (\<lambda>_. []), next_id = 0\<rparr>"
  let ?a = "\<lparr>rp_name = ''Ann'', rp_email = ''Ann@X.org'', rp_password = ''pw''\<rparr>"
  let ?b = "\<lparr>rp_name = ''Bob'', rp_email = ''ANN@x.org'', rp_password = ''pw2''\<rparr>"
  let ?r = "\<lparr>rr_id = str_oid 0, rr_name = ''Ann'', rr_email = ''ann@x.org''\<rparr>"
  have c: "connected ?s" by simp
  have l: "lower ''Ann@X.org'' = ''ann@x.org''" by code_simp
  have l2: "lower ''ANN@x.org'' = ''ann@x.org''" by code_simp
  have g: "get ?d ''email'' = VStr (lower ''Ann@X.org'')"
    by (simp add: l get_def get_default_def)
  have m: "?d \<in> set (colls ?s ''user'')" by simp
  from register_user_duplicate [OF c, of ?d ?p] m g
  have first: "register_user ?p ?s = (Inl DuplicateEmail, ?s)" by simp
  have ce: "connected ?e" by simp
  have look: "get_documents ''user'' [(''email'', VStr (lower (rp_email ?a)))] (Some 1) ?e = Inr []"
    by (simp add: get_documents_def)
  have run: "register_user ?a ?e = (Inr ?r, snd (register_user ?a ?e))"
    using register_user_fresh [OF ce look] by (simp add: l)
  have same: "lower (rp_email ?b) = lower (rp_email ?a)" by (simp add: l l2)
  from register_user_duplicate [OF ce, of _ ?a ?r "snd (register_user ?a ?e)" ?b] run same
  have second: "register_user ?b (snd (register_user ?a ?e))
                  = (Inl DuplicateEmail, snd (register_user ?a ?e))"
    by blast
  from run have r1: "fst (register_user ?a ?e) = Inr ?r" by (metis fst_conv)
  from second have r2: "fst (register_user ?b (snd (register_user ?a ?e))) = Inl DuplicateEmail"
    by (metis fst_conv)
  have same': "lower ''ANN@x.org'' = lower ''Ann@X.org''" by (simp add: l l2)
  from c g first r1 same' r2 show ?thesis unfolding DuplicateEmail_def by blast
qed

text \<open>
  Claim C2. When the store is reachable and no stored account holds the lowercased
  email of the payload, \<open>register_user\<close> appends to the collection \<open>user\<close> exactly one
  document: the name, the lowercased email, \<open>password_hash\<close> equal to "sha256:" followed
  by the submitted password, \<open>avatar_url\<close> absent, \<open>role\<close> "user" and \<open>is_active\<close> true.
  It returns the generated identifier with the name and the email.
\<close>

theorem register_user_inserts:
  assumes "connected s"
      and "\<forall>d\<in>set (colls s ''user''). get d ''email'' \<noteq> VStr (lower (rp_email p))"
  shows "register_user p s =
     (Inr \<lparr>rr_id = str_oid (next_id s), rr_name = rp_name p, rr_email = lower (rp_email p)\<rparr>,
      s\<lparr>colls := (colls s)(''user'' := colls s ''user'' @
           [\<lparr>doc_id = next_id s,
             doc_fields =
               [(''name'', VStr (rp_name p)), (''email'', VStr (lower (rp_email p))),
                (''password_hash'', VStr (''sha256:'' @ rp_password p)), (''avatar_url'', VNone),
                (''role'', VStr ''user''), (''is_active'', VBool True)]\<rparr>]),
        next_id := Suc (next_id s)\<rparr>)"
  using register_user_fresh [OF assms(1) lookup_none [OF assms]] .

theorem register_user_inserts_witness:
  "connected \<lparr>connected = True,
      colls = (\<lambda>_. [])(''user'' := [\<lparr>doc_id = 0, doc_fields = [(''email'', VStr ''ann@x.org'')]\<rparr>]),
      next_id = 1\<rparr>
   \<and> fst (register_user \<lparr>rp_name = ''Bob'', rp_email = ''Bob@X.org'', rp_password = ''pw''\<rparr>
        \<lparr>connected = True,
          colls = (\<lambda>_. [])(''user'' := [\<lparr>doc_id = 0, doc_fields = [(''email'', VStr ''ann@x.org'')]\<rparr>]),
          next_id = 1\<rparr>)
     = Inr \<lparr>rr_id = str_oid 1, rr_name = ''Bob'', rr_email = ''bob@x.org''\<rparr>
   \<and> colls (snd (register_user \<lparr>rp_name = ''Bob'', rp_email = ''Bob@X.org'', rp_password = ''pw''\<rparr>
        \<lparr>connected = True,
          colls = (\<lambda>_. [])(''user'' := [\<lparr>doc_id = 0, doc_fields = [(''email'', VStr ''ann@x.org'')]\<rparr>]),
          next_id = 1\<rparr>)) ''user''
     = [\<lparr>doc_id = 0, doc_fields = [(''email'', VStr ''ann@x.org'')]\<rparr>,
        \<lparr>doc_id = 1,
          doc_fields =
            [(''name'', VStr ''Bob''), (''email'', VStr ''bob@x.org''),
             (''password_hash'', VStr ''sha256:pw''), (''avatar_url'', VNone),
             (''role'', VStr ''user''), (''is_active'', VBool True)]\<rparr>]"
proof -
  let ?d = "\<lparr>doc_id = 0, doc_fields = [(''email'', VStr ''ann@x.org'')]\<rparr>"
  let ?s = "\<lparr>connected = True, colls = (\<lambda>_. [])(''user'' := [?d]), next_id = 1\<rparr>"
  let ?p = "\<lparr>rp_name = ''Bob'', rp_email = ''Bob@X.org'', rp_password = ''pw''\<rparr>"
  have c: "connected ?s" by simp
  have l: "lower ''Bob@X.org'' = ''bob@x.org''" by code_simp
  have n: "\<forall>d\<in>set (colls ?s ''user''). get d ''email'' \<noteq> VStr (lower (rp_email ?p))"
    by (simp add: l get_def get_default_def)
  show ?thesis
    using register_user_inserts [OF c n] by (simp add: l)
qed



section \<open>Login\<close>

lemma login_user_none:
  "get_documents ''user'' [(''email'', VStr (lower (lp_email p)))] (Some 1) s = Inr [] \<Longrightarrow>
   login_user p s = (Inl (HTTPException 401 ''Invalid credentials''), s)"
  by (simp add: login_user_def)

lemma login_user_mismatch:
  "get_documents ''user'' [(''email'', VStr (lower (lp_email p)))] (Some 1) s = Inr (d # rest) \<Longrightarrow>
   get d ''password_hash'' \<noteq> VStr (''sha256:'' @ lp_password p) \<Longrightarrow>
   login_user p s = (Inl (HTTPException 401 ''Invalid credentials''), s)"
  by (simp add: login_user_def)

text \<open>
  Claim C3. A login fails with \<open>InvalidCredentials\<close>, the authorization error 401
  "Invalid credentials", when no stored account holds the lowercased email, and
  when the account the lookup returns has a \<open>password_hash\<close> other than "sha256:"
  followed by the submitted password. The result carries the same error in both
  cases, so the two are indistinguishable; the store is left as it was.
\<close>

theorem login_user_invalid:
  "(connected s \<and> (\<forall>d\<in>set (colls s ''user''). get d ''email'' \<noteq> VStr (lower (lp_email p))) \<longrightarrow>
      login_user p s = (Inl InvalidCredentials, s))
   \<and> (get_documents ''user'' [(''email'', VStr (lower (lp_email p)))] (Some 1) s = Inr [] \<longrightarrow>
      login_user p s = (Inl InvalidCredentials, s))
   \<and> (get_documents ''user'' [(''email'', VStr (lower (lp_email q)))] (Some 1) t = Inr (d # rest)
        \<and> get d ''password_hash'' \<noteq> VStr (''sha256:'' @ lp_password q) \<longrightarrow>
      login_user q t = (Inl InvalidCredentials, t))
   \<and> (get_documents ''user'' [(''email'', VStr (lower (lp_email p)))] (Some 1) s = Inr []
        \<and> get_documents ''user'' [(''email'', VStr (lower (lp_email q)))] (Some 1) t = Inr (d # rest)
        \<and> get d ''password_hash'' \<noteq> VStr (''sha256:'' @ lp_password q) \<longrightarrow>
      fst (login_user p s) = fst (login_user q t))
   \<and> InvalidCredentials = HTTPException 401 ''Invalid credentials''
   \<and> is_authorization_error InvalidCredentials"
proof (intro conjI impI)
  assume "connected s \<and> (\<forall>d\<in>set (colls s ''user''). get d ''email'' \<noteq> VStr (lower (lp_email p)))"
  then have "get_documents ''user'' [(''email'', VStr (lower (lp_email p)))] (Some 1) s = Inr []"
    using lookup_none by blast
  then show "login_user p s = (Inl InvalidCredentials, s)"
    using login_user_none by (simp add: InvalidCredentials_def)
next
  assume "get_documents ''user'' [(''email'', VStr (lower (lp_email p)))] (Some 1) s = Inr []"
  then show "login_user p s = (Inl InvalidCredentials, s)"
    using login_user_none by (simp add: InvalidCredentials_def)
next
  assume "get_documents ''user'' [(''email'', VStr (lower (lp_email q)))] (Some 1) t = Inr (d # rest)
        \<and> get d ''password_hash'' \<noteq> VStr (''sha256:'' @ lp_password q)"
  then show "login_user q t = (Inl InvalidCredentials, t)"
    using login_user_mismatch [of q t d rest] unfolding InvalidCredentials_def by blast
next
  assume "get_documents ''user'' [(''email'', VStr (lower (lp_email p)))] (Some 1) s = Inr []
        \<and> get_documents ''user'' [(''email'', VStr (lower (lp_email q)))] (Some 1) t = Inr (d # rest)
        \<and> get d ''password_hash'' \<noteq> VStr (''sha256:'' @ lp_password q)"
  then have "login_user p s = (Inl (HTTPException 401 ''Invalid credentials''), s)"
    and "login_user q t = (Inl (HTTPException 401 ''Invalid credentials''), t)"
    using login_user_none [of p s] login_user_mismatch [of q t d rest] by blast+
  then show "fst (login_user p s) = fst (login_user q t)" by simp
qed (simp_all add: InvalidCredentials_def)

theorem login_user_invalid_witness:
  "get_documents ''user'' [(''email'', VStr (lower ''Bob@X.org''))] (Some 1)
       \<lparr>connected = True,
         colls = (\<lambda>_. [])(''user'' := [\<lparr>doc_id = 0, doc_fields =
            [(''name'', VStr ''Ann''), (''email'', VStr ''ann@x.org''),
             (''password_hash'', VStr ''sha256:pw'')]\<rparr>]),
         next_id = 1\<rparr> = Inr []
   \<and> get_documents ''user'' [(''email'', VStr (lower ''Ann@X.org''))] (Some 1)
       \<lparr>connected = True,
         colls = (\<lambda>_. [])(''user'' := [\<lparr>doc_id = 0, doc_fields =
            [(''name'', VStr ''Ann''), (''email'', VStr ''ann@x.org''),
             (''password_hash'', VStr ''sha256:pw'')]\<rparr>]),
         next_id = 1\<rparr>
      = Inr [\<lparr>doc_id = 0, doc_fields =
            [(''name'', VStr ''Ann''), (''email'', VStr ''ann@x.org''),
             (''password_hash'', VStr ''sha256:pw'')]\<rparr>]
   \<and> fst (login_user \<lparr>lp_email = ''Bob@X.org'', lp_password = ''pw''\<rparr>
       \<lparr>connected = True,
         colls = (\<lambda>_. [])(''user'' := [\<lparr>doc_id = 0, doc_fields =
            [(''name'', VStr ''Ann''), (''email'', VStr ''ann@x.org''),
             (''password_hash'', VStr ''sha256:pw'')]\<rparr>]),
         next_id = 1\<rparr>) = Inl (HTTPException 401 ''Invalid credentials'')
   \<and> fst (login_user \<lparr>lp_email = ''Ann@X.org'', lp_password = ''wrong''\<rparr>
       \<lparr>connected = True,
         colls = (\<lambda>_. [])(''user'' := [\<lparr>doc_id = 0, doc_fields =
            [(''name'', VStr ''Ann''), (''email'', VStr ''ann@x.org''),
             (''password_hash'', VStr ''sha256:pw'')]\<rparr>]),
         next_id = 1\<rparr>) = Inl (HTTPException 401 ''Invalid credentials'')"
proof -
  let ?d = "\<lparr>doc_id = 0, doc_fields =
            [(''name'', VStr ''Ann''), (''email'', VStr ''ann@x.org''),
             (''password_hash'', VStr ''sha256:pw'')]\<rparr>"
  let ?s = "\<lparr>connected = True, colls = (\<lambda>_. [])(''user'' := [?d]), next_id = 1\<rparr>"
  let ?p = "\<lparr>lp_email = ''Bob@X.org'', lp_password = ''pw''\<rparr>"
  let ?q = "\<lparr>lp_email = ''Ann@X.org'', lp_password = ''wrong''\<rparr>"
  have lb: "lower ''Bob@X.org'' = ''bob@x.org''" by code_simp
  have la: "lower ''Ann@X.org'' = ''ann@x.org''" by code_simp
  have n: "get_documents ''user'' [(''email'', VStr (lower (lp_email ?p)))] (Some 1) ?s = Inr []"
    by (simp add: lb get_documents_def matches_def)
  have f: "get_documents ''user'' [(''email'', VStr (lower (lp_email ?q)))] (Some 1) ?s = Inr (?d # [])"
    by (simp add: la get_documents_def matches_def)
  have h: "get ?d ''password_hash'' \<noteq> VStr (''sha256:'' @ lp_password ?q)"
    by (simp add: get_def get_default_def)
  from login_user_invalid [of ?s ?p ?q ?s ?d "[]"] n f h
  have "login_user ?p ?s = (Inl InvalidCredentials, ?s)"
    and "login_user ?q ?s = (Inl InvalidCredentials, ?s)" by blast+
  then have "fst (login_user ?p ?s) = Inl (HTTPException 401 ''Invalid credentials'')"
    and "fst (login_user ?q ?s) = Inl (HTTPException 401 ''Invalid credentials'')"
    by (simp_all add: InvalidCredentials_def)
  with n f show ?thesis by simp
qed

lemma login_user_match:
  assumes "get_documents ''user'' [(''email'', VStr (lower (lp_email p)))] (Some 1) s = Inr (d # rest)"
      and "get d ''password_hash'' = VStr (''sha256:'' @ lp_password p)"
  shows "login_user p s =
           (Inr \<lparr>lr_token = ''demo-token'', lr_user_name = get d ''name'',
                 lr_user_email = get d ''email''\<rparr>, s)"
  using assms by (simp add: login_user_def)

text \<open>
  Claim C4, as amended. On a reachable store, when the first stored account in
  storage order that holds the lowercased email of the payload (the account the
  lookup with limit 1 returns) has \<open>password_hash\<close> equal to "sha256:" followed by
  the submitted password, \<open>login_user\<close> succeeds: it returns the fixed token
  "demo-token" with the name and the email stored in that account, and leaves the
  store as it was. This is so in particular for an account that is the only one
  holding that email.
\<close>

theorem login_user_success:
  assumes "connected s"
  shows "(List.find (\<lambda>a. get a ''email'' = VStr (lower (lp_email p))) (colls s ''user'') = Some d
           \<and> get d ''password_hash'' = VStr (''sha256:'' @ lp_password p) \<longrightarrow>
            login_user p s =
              (Inr \<lparr>lr_token = ''demo-token'', lr_user_name = get d ''name'',
                    lr_user_email = get d ''email''\<rparr>, s)
            \<and> d \<in> set (colls s ''user'') \<and> get d ''email'' = VStr (lower (lp_email p)))
       \<and> (d \<in> set (colls s ''user'') \<and> get d ''email'' = VStr (lower (lp_email p))
           \<and> get d ''password_hash'' = VStr (''sha256:'' @ lp_password p)
           \<and> (\<forall>a\<in>set (colls s ''user'').
                  get a ''email'' = VStr (lower (lp_email p)) \<longrightarrow> a = d) \<longrightarrow>
            login_user p s =
              (Inr \<lparr>lr_token = ''demo-token'', lr_user_name = get d ''name'',
                    lr_user_email = get d ''email''\<rparr>, s))"
proof -
  have first: "login_user p s =
              (Inr \<lparr>lr_token = ''demo-token'', lr_user_name = get d ''name'',
                    lr_user_email = get d ''email''\<rparr>, s)
            \<and> d \<in> set (colls s ''user'') \<and> get d ''email'' = VStr (lower (lp_email p))"
    if f: "List.find (\<lambda>a. get a ''email'' = VStr (lower (lp_email p))) (colls s ''user'') = Some d"
      and h: "get d ''password_hash'' = VStr (''sha256:'' @ lp_password p)"
  proof -
    from lookup_first [OF assms f]
    have "get_documents ''user'' [(''email'', VStr (lower (lp_email p)))] (Some 1) s = Inr (d # [])" .
    then have "login_user p s =
              (Inr \<lparr>lr_token = ''demo-token'', lr_user_name = get d ''name'',
                    lr_user_email = get d ''email''\<rparr>, s)"
      using h by (rule login_user_match)
    moreover from find_in_set [OF f]
    have "d \<in> set (colls s ''user'') \<and> get d ''email'' = VStr (lower (lp_email p))" .
    ultimately show ?thesis by (rule conjI)
  qed
  have only: "login_user p s =
              (Inr \<lparr>lr_token = ''demo-token'', lr_user_name = get d ''name'',
                    lr_user_email = get d ''email''\<rparr>, s)"
    if m: "d \<in> set (colls s ''user'')"
      and e: "get d ''email'' = VStr (lower (lp_email p))"
      and h: "get d ''password_hash'' = VStr (''sha256:'' @ lp_password p)"
      and u: "\<forall>a\<in>set (colls s ''user''). get a ''email'' = VStr (lower (lp_email p)) \<longrightarrow> a = d"
  proof -
    have "List.find (\<lambda>a. get a ''email'' = VStr (lower (lp_email p))) (colls s ''user'') = Some d"
      using m e u by (rule find_unique)
    from first [OF this h] show ?thesis by (rule conjunct1)
  qed
  show ?thesis
  proof (rule conjI)
    show "List.find (\<lambda>a. get a ''email'' = VStr (lower (lp_email p))) (colls s ''user'') = Some d
           \<and> get d ''password_hash'' = VStr (''sha256:'' @ lp_password p) \<longrightarrow>
            login_user p s =
              (Inr \<lparr>lr_token = ''demo-token'', lr_user_name = get d ''name'',
                    lr_user_email = get d ''email''\<rparr>, s)
            \<and> d \<in> set (colls s ''user'') \<and> get d ''email'' = VStr (lower (lp_email p))"
    proof (rule impI)
      assume a: "List.find (\<lambda>a. get a ''email'' = VStr (lower (lp_email p))) (colls s ''user'') = Some d
           \<and> get d ''password_hash'' = VStr (''sha256:'' @ lp_password p)"
      show "login_user p s =
              (Inr \<lparr>lr_token = ''demo-token'', lr_user_name = get d ''name'',
                    lr_user_email = get d ''email''\<rparr>, s)
            \<and> d \<in> set (colls s ''user'') \<and> get d ''email'' = VStr (lower (lp_email p))"
        by (rule first [OF conjunct1 [OF a] conjunct2 [OF a]])
    qed
  next
    show "d \<in> set (colls s ''user'') \<and> get d ''email'' = VStr (lower (lp_email p))
           \<and> get d ''password_hash'' = VStr (''sha256:'' @ lp_password p)
           \<and> (\<forall>a\<in>set (colls s ''user'').
                  get a ''email'' = VStr (lower (lp_email p)) \<longrightarrow> a = d) \<longrightarrow>
            login_user p s =
              (Inr \<lparr>lr_token = ''demo-token'', lr_user_name = get d ''name'',
                    lr_user_email = get d ''email''\<rparr>, s)"
    proof (rule impI)
      assume a: "d \<in> set (colls s ''user'') \<and> get d ''email'' = VStr (lower (lp_email p))
           \<and> get d ''password_hash'' = VStr (''sha256:'' @ lp_password p)
           \<and> (\<forall>a\<in>set (colls s ''user'').
                  get a ''email'' = VStr (lower (lp_email p)) \<longrightarrow> a = d)"
      show "login_user p s =
              (Inr \<lparr>lr_token = ''demo-token'', lr_user_name = get d ''name'',
                    lr_user_email = get d ''email''\<rparr>, s)"
        by (rule only [OF conjunct1 [OF a] conjunct1 [OF conjunct2 [OF a]]
              conjunct1 [OF conjunct2 [OF conjunct2 [OF a]]]
              conjunct2 [OF conjunct2 [OF conjunct2 [OF a]]]])
    qed
  qed
qed

theorem login_user_success_witness:
  "connected
       \<lparr>connected = True,
         colls = (\<lambda>_. [])(''user'' :=
           [\<lparr>doc_id = 0, doc_fields =
              [(''name'', VStr ''Ann''), (''email'', VStr ''ann@x.org''),
               (''password_hash'', VStr ''sha256:pw1'')]\<rparr>,
            \<lparr>doc_id = 1, doc_fields =
              [(''name'', VStr ''Anna''), (''email'', VStr ''ann@x.org''),
               (''password_hash'', VStr ''sha256:pw2'')]\<rparr>]),
         next_id = 2\<rparr>
   \<and> List.find (\<lambda>a. get a ''email'' = VStr (lower ''Ann@X.org''))
        (colls
       \<lparr>connected = True,
         colls = (\<lambda>_. [])(''user'' :=
           [\<lparr>doc_id = 0, doc_fields =
              [(''name'', VStr ''Ann''), (''email'', VStr ''ann@x.org''),
               (''password_hash'', VStr ''sha256:pw1'')]\<rparr>,
            \<lparr>doc_id = 1, doc_fields =
              [(''name'', VStr ''Anna''), (''email'', VStr ''ann@x.org''),
               (''password_hash'', VStr ''sha256:pw2'')]\<rparr>]),
         next_id = 2\<rparr> ''user'')
      = Some \<lparr>doc_id = 0, doc_fields =
              [(''name'', VStr ''Ann''), (''email'', VStr ''ann@x.org''),
               (''password_hash'', VStr ''sha256:pw1'')]\<rparr>
   \<and> login_user \<lparr>lp_email = ''Ann@X.org'', lp_password = ''pw1''\<rparr>
       \<lparr>connected = True,
         colls = (\<lambda>_. [])(''user'' :=
           [\<lparr>doc_id = 0, doc_fields =
              [(''name'', VStr ''Ann''), (''email'', VStr ''ann@x.org''),
               (''password_hash'', VStr ''sha256:pw1'')]\<rparr>,
            \<lparr>doc_id = 1, doc_fields =
              [(''name'', VStr ''Anna''), (''email'', VStr ''ann@x.org''),
               (''password_hash'', VStr ''sha256:pw2'')]\<rparr>]),
         next_id = 2\<rparr>
    = (Inr \<lparr>lr_token = ''demo-token'', lr_user_name = VStr ''Ann'',
             lr_user_email = VStr ''ann@x.org''\<rparr>,
       \<lparr>connected = True,
         colls = (\<lambda>_. [])(''user'' :=
           [\<lparr>doc_id = 0, doc_fields =
              [(''name'', VStr ''Ann''), (''email'', VStr ''ann@x.org''),
               (''password_hash'', VStr ''sha256:pw1'')]\<rparr>,
            \<lparr>doc_id = 1, doc_fields =
              [(''name'', VStr ''Anna''), (''email'', VStr ''ann@x.org''),
               (''password_hash'', VStr ''sha256:pw2'')]\<rparr>]),
         next_id = 2\<rparr>)"
proof -
  let ?d = "\<lparr>doc_id = 0, doc_fields =
              [(''name'', VStr ''Ann''), (''email'', VStr ''ann@x.org''),
               (''password_hash'', VStr ''sha256:pw1'')]\<rparr>"
  let ?s = "\<lparr>connected = True,
         colls = (\<lambda>_. [])(''user'' :=
           [\<lparr>doc_id = 0, doc_fields =
              [(''name'', VStr ''Ann''), (''email'', VStr ''ann@x.org''),
               (''password_hash'', VStr ''sha256:pw1'')]\<rparr>,
            \<lparr>doc_id = 1, doc_fields =
              [(''name'', VStr ''Anna''), (''email'', VStr ''ann@x.org''),
               (''password_hash'', VStr ''sha256:pw2'')]\<rparr>]),
         next_id = 2\<rparr>"
  let ?q = "\<lparr>lp_email = ''Ann@X.org'', lp_password = ''pw1''\<rparr>"
  have c: "connected ?s" by simp
  have la: "lower ''Ann@X.org'' = ''ann@x.org''" by code_simp
  have f: "List.find (\<lambda>a. get a ''email'' = VStr (lower (lp_email ?q))) (colls ?s ''user'') = Some ?d"
    by (simp add: la get_def get_default_def)
  have h: "get ?d ''password_hash'' = VStr (''sha256:'' @ lp_password ?q)"
    by (simp add: get_def get_default_def)
  have n: "get ?d ''name'' = VStr ''Ann''" and e: "get ?d ''email'' = VStr ''ann@x.org''"
    by (simp_all add: get_def get_default_def)
  from login_user_success [OF c, of ?q ?d] f h
  have "login_user ?q ?s =
           (Inr \<lparr>lr_token = ''demo-token'', lr_user_name = get ?d ''name'',
                 lr_user_email = get ?d ''email''\<rparr>, ?s)" by blast
  then have run: "login_user ?q ?s =
           (Inr \<lparr>lr_token = ''demo-token'', lr_user_name = VStr ''Ann'',
                 lr_user_email = VStr ''ann@x.org''\<rparr>, ?s)" unfolding n e .
  from f have f': "List.find (\<lambda>a. get a ''email'' = VStr (lower ''Ann@X.org'')) (colls ?s ''user'') = Some ?d"
    by simp
  from c f' run show ?thesis by (intro conjI)
qed

text \<open>
  The claim as first stated fails where two stored accounts hold one email: the
  second account matches the lowercased email and its \<open>password_hash\<close> is "sha256:"
  followed by the submitted password, yet the lookup with limit 1 returns the first
  account and the login is refused.
\<close>

theorem login_user_second_account_counterexample:
  "\<lparr>doc_id = 1, doc_fields =
              [(''name'', VStr ''Anna''), (''email'', VStr ''ann@x.org''),
               (''password_hash'', VStr ''sha256:pw2'')]\<rparr>
     \<in> set (colls
       \<lparr>connected = True,
         colls = (\<lambda>_. [])(''user'' :=
           [\<lparr>doc_id = 0, doc_fields =
              [(''name'', VStr ''Ann''), (''email'', VStr ''ann@x.org''),
               (''password_hash'', VStr ''sha256:pw1'')]\<rparr>,
            \<lparr>doc_id = 1, doc_fields =
              [(''name'', VStr ''Anna''), (''email'', VStr ''ann@x.org''),
               (''password_hash'', VStr ''sha256:pw2'')]\<rparr>]),
         next_id = 2\<rparr> ''user'')
   \<and> get \<lparr>doc_id = 1, doc_fields =
              [(''name'', VStr ''Anna''), (''email'', VStr ''ann@x.org''),
               (''password_hash'', VStr ''sha256:pw2'')]\<rparr> ''email'' = VStr (lower ''Ann@X.org'')
   \<and> get \<lparr>doc_id = 1, doc_fields =
              [(''name'', VStr ''Anna''), (''email'', VStr ''ann@x.org''),
               (''password_hash'', VStr ''sha256:pw2'')]\<rparr> ''password_hash'' = VStr (''sha256:'' @ ''pw2'')
   \<and> login_user \<lparr>lp_email = ''Ann@X.org'', lp_password = ''pw2''\<rparr>
       \<lparr>connected = True,
         colls = (\<lambda>_. [])(''user'' :=
           [\<lparr>doc_id = 0, doc_fields =
              [(''name'', VStr ''Ann''), (''email'', VStr ''ann@x.org''),
               (''password_hash'', VStr ''sha256:pw1'')]\<rparr>,
            \<lparr>doc_id = 1, doc_fields =
              [(''name'', VStr ''Anna''), (''email'', VStr ''ann@x.org''),
               (''password_hash'', VStr ''sha256:pw2'')]\<rparr>]),
         next_id = 2\<rparr>
    = (Inl (HTTPException 401 ''Invalid credentials''),
       \<lparr>connected = True,
         colls = (\<lambda>_. [])(''user'' :=
           [\<lparr>doc_id = 0, doc_fields =
              [(''name'', VStr ''Ann''), (''email'', VStr ''ann@x.org''),
               (''password_hash'', VStr ''sha256:pw1'')]\<rparr>,
            \<lparr>doc_id = 1, doc_fields =
              [(''name'', VStr ''Anna''), (''email'', VStr ''ann@x.org''),
               (''password_hash'', VStr ''sha256:pw2'')]\<rparr>]),
         next_id = 2\<rparr>)"
proof -
  let ?d1 = "\<lparr>doc_id = 0, doc_fields =
              [(''name'', VStr ''Ann''), (''email'', VStr ''ann@x.org''),
               (''password_hash'', VStr ''sha256:pw1'')]\<rparr>"
  let ?d2 = "\<lparr>doc_id = 1, doc_fields =
              [(''name'', VStr ''Anna''), (''email'', VStr ''ann@x.org''),
               (''password_hash'', VStr ''sha256:pw2'')]\<rparr>"
  let ?s = "\<lparr>connected = True,
         colls = (\<lambda>_. [])(''user'' :=
           [\<lparr>doc_id = 0, doc_fields =
              [(''name'', VStr ''Ann''), (''email'', VStr ''ann@x.org''),
               (''password_hash'', VStr ''sha256:pw1'')]\<rparr>,
            \<lparr>doc_id = 1, doc_fields =
              [(''name'', VStr ''Anna''), (''email'', VStr ''ann@x.org''),
               (''password_hash'', VStr ''sha256:pw2'')]\<rparr>]),
         next_id = 2\<rparr>"
  let ?q = "\<lparr>lp_email = ''Ann@X.org'', lp_password = ''pw2''\<rparr>"
  have la: "lower ''Ann@X.org'' = ''ann@x.org''" by code_simp
  have m: "?d2 \<in> set (colls ?s ''user'')" by simp
  have e: "get ?d2 ''email'' = VStr (lower ''Ann@X.org'')"
    by (simp add: la get_def get_default_def)
  have h: "get ?d2 ''password_hash'' = VStr (''sha256:'' @ ''pw2'')"
    by (simp add: get_def get_default_def)
  have look: "get_documents ''user'' [(''email'', VStr (lower (lp_email ?q)))] (Some 1) ?s
                = Inr (?d1 # [])"
    by (simp add: la get_documents_def matches_def)
  have mis: "get ?d1 ''password_hash'' \<noteq> VStr (''sha256:'' @ lp_password ?q)"
    by (simp add: get_def get_default_def)
  have "login_user ?q ?s = (Inl (HTTPException 401 ''Invalid credentials''), ?s)"
    using look mis by (rule login_user_mismatch)
  with m e h show ?thesis by (intro conjI)
qed

section \<open>Blog\<close>

lemma create_post_connected:
  "connected s \<Longrightarrow> create_post p now s =
     (Inr \<lparr>br_id = str_oid (next_id s), br_slug = slug_of (bp_title p)\<rparr>,
      s\<lparr>colls := (colls s)(''blogpost'' := colls s ''blogpost'' @
           [\<lparr>doc_id = next_id s,
             doc_fields =
               [(''title'', VStr (bp_title p)), (''slug'', VStr (slug_of (bp_title p))),
                (''excerpt'', VStr (excerpt_of (bp_content p))),
                (''content'', VStr (bp_content p)),
                (''author_name'', VStr (bp_author_name p)), (''cover_image'', VNone),
                (''tags'', VList (case bp_tags p of None \<Rightarrow> [] | Some ts \<Rightarrow> ts)),
                (''status'', VStr ''published''), (''published_at'', VTime now)]\<rparr>]),
        next_id := Suc (next_id s)\<rparr>)"
  by (simp add: create_post_def create_document_connected BlogPost_fields_def opt_val_def Let_def)

lemma create_post_success:
  "create_post p now s = (Inr r, s') \<Longrightarrow> connected s"
  by (auto simp: create_post_def create_document_def Let_def split: if_splits)

lemma list_posts_connected:
  assumes "connected s"
  shows "list_posts s =
     Inr (map post_view (filter (\<lambda>d. get d ''status'' = VStr ''published'') (colls s ''blogpost'')))"
proof -
  have "matches [(''status'', VStr ''published'')] = (\<lambda>d. get d ''status'' = VStr ''published'')"
    by (rule ext) (rule matches_single)
  then show ?thesis
    using assms by (simp add: list_posts_def get_documents_connected)
qed

text \<open>
  Claim C5. The post that \<open>create_post\<close> stores has as its excerpt the first 140
  characters of the content followed by "..." when the content is longer than 140
  characters, and the content itself when it has at most 140 characters.
\<close>

theorem create_post_excerpt:
  assumes "connected s"
  shows "\<exists>d. snd (create_post p now s) =
               s\<lparr>colls := (colls s)(''blogpost'' := colls s ''blogpost'' @ [d]),
                 next_id := Suc (next_id s)\<rparr>
           \<and> (length (bp_content p) > 140 \<longrightarrow>
                get d ''excerpt'' = VStr (take 140 (bp_content p) @ ''...'')
                \<and> length (take 140 (bp_content p)) = 140)
           \<and> (length (bp_content p) \<le> 140 \<longrightarrow> get d ''excerpt'' = VStr (bp_content p))"
proof -
  define d where "d = \<lparr>doc_id = next_id s,
             doc_fields =
               [(''title'', VStr (bp_title p)), (''slug'', VStr (slug_of (bp_title p))),
                (''excerpt'', VStr (excerpt_of (bp_content p))),
                (''content'', VStr (bp_content p)),
                (''author_name'', VStr (bp_author_name p)), (''cover_image'', VNone),
                (''tags'', VList (case bp_tags p of None \<Rightarrow> [] | Some ts \<Rightarrow> ts)),
                (''status'', VStr ''published''), (''published_at'', VTime now)]\<rparr>"
  have stored: "snd (create_post p now s) =
          s\<lparr>colls := (colls s)(''blogpost'' := colls s ''blogpost'' @ [d]),
            next_id := Suc (next_id s)\<rparr>"
    by (simp add: d_def create_post_connected [OF assms])
  have field: "get d ''excerpt'' = VStr (excerpt_of (bp_content p))"
    by (simp add: d_def get_def get_default_def)
  have long: "length (bp_content p) > 140 \<longrightarrow>
        excerpt_of (bp_content p) = take 140 (bp_content p) @ ''...''
        \<and> length (take 140 (bp_content p)) = 140"
    by (simp add: excerpt_of_def)
  have short: "length (bp_content p) \<le> 140 \<longrightarrow> excerpt_of (bp_content p) = bp_content p"
    by (simp add: excerpt_of_def)
  from stored field long short show ?thesis
    by (intro exI [of _ d]) metis
qed

theorem create_post_excerpt_witness:
  "connected \<lparr>connected = True, colls = (\<lambda>_. []), next_id = 0\<rparr>
   \<and> length (replicate 141 CHR ''a'') > 140
   \<and> (\<exists>d. snd (create_post \<lparr>bp_title = ''T'', bp_content = replicate 141 CHR ''a'',
                              bp_author_name = ''Ann'', bp_tags = None\<rparr> 7
                  \<lparr>connected = True, colls = (\<lambda>_. []), next_id = 0\<rparr>)
            = \<lparr>connected = True, colls = (\<lambda>_. [])(''blogpost'' := [d]), next_id = 1\<rparr>
          \<and> get d ''excerpt'' = VStr (replicate 140 CHR ''a'' @ ''...''))
   \<and> length ''short'' \<le> 140
   \<and> (\<exists>d. snd (create_post \<lparr>bp_title = ''T'', bp_content = ''short'',
                              bp_author_name = ''Ann'', bp_tags = None\<rparr> 7
                  \<lparr>connected = True, colls = (\<lambda>_. []), next_id = 0\<rparr>)
            = \<lparr>connected = True, colls = (\<lambda>_. [])(''blogpost'' := [d]), next_id = 1\<rparr>
          \<and> get d ''excerpt'' = VStr ''short'')"
proof -
  let ?s = "\<lparr>connected = True, colls = (\<lambda>_. []), next_id = 0\<rparr>"
  let ?p = "\<lparr>bp_title = ''T'', bp_content = replicate 141 CHR ''a'',
             bp_author_name = ''Ann'', bp_tags = None\<rparr>"
  let ?q = "\<lparr>bp_title = ''T'', bp_content = ''short'', bp_author_name = ''Ann'', bp_tags = None\<rparr>"
  have c: "connected ?s" by simp
  have t: "take 140 (replicate 141 CHR ''a'') = replicate 140 CHR ''a''" by simp
  have lp: "length (bp_content ?p) > 140" by simp
  have lq: "length (bp_content ?q) \<le> 140" by simp
  from create_post_excerpt [OF c, of ?p 7] lp
  have long: "\<exists>d. snd (create_post ?p 7 ?s) =
                 ?s\<lparr>colls := (colls ?s)(''blogpost'' := colls ?s ''blogpost'' @ [d]),
                    next_id := Suc (next_id ?s)\<rparr>
              \<and> get d ''excerpt'' = VStr (take 140 (bp_content ?p) @ ''...'')"
    by blast
  from create_post_excerpt [OF c, of ?q 7] lq
  have short: "\<exists>d. snd (create_post ?q 7 ?s) =
                 ?s\<lparr>colls := (colls ?s)(''blogpost'' := colls ?s ''blogpost'' @ [d]),
                    next_id := Suc (next_id ?s)\<rparr>
              \<and> get d ''excerpt'' = VStr (bp_content ?q)"
    by blast
  from long have long': "\<exists>d. snd (create_post ?p 7 ?s)
            = \<lparr>connected = True, colls = (\<lambda>_. [])(''blogpost'' := [d]), next_id = 1\<rparr>
          \<and> get d ''excerpt'' = VStr (replicate 140 CHR ''a'' @ ''...'')"
    by (simp add: t)
  from short have short': "\<exists>d. snd (create_post ?q 7 ?s)
            = \<lparr>connected = True, colls = (\<lambda>_. [])(''blogpost'' := [d]), next_id = 1\<rparr>
          \<and> get d ''excerpt'' = VStr ''short''"
    by simp
  from c long' short' show ?thesis by simp
qed

text \<open>
  Claim C6. The slug that \<open>create_post\<close> returns and stores is a function of the
  title alone, computed on any reachable store whatever posts it already holds (no
  collision check): the title with the letters A to Z lowercased, cut down to the
  part between its leading and its trailing whitespace, and with every space of
  that part replaced by a hyphen. The title "Hello World" gives the slug
  "hello-world"; a title with a leading tab and space, three spaces between the words
  and a trailing space and line feed gives "hello---world".
\<close>

theorem create_post_slug:
  assumes "connected s"
  shows "(\<exists>d pre core post.
            create_post p now s =
               (Inr \<lparr>br_id = str_oid (next_id s),
                     br_slug = map (\<lambda>c. if c = CHR '' '' then CHR ''-'' else c) core\<rparr>,
                s\<lparr>colls := (colls s)(''blogpost'' := colls s ''blogpost'' @ [d]),
                  next_id := Suc (next_id s)\<rparr>)
            \<and> get d ''slug'' = VStr (map (\<lambda>c. if c = CHR '' '' then CHR ''-'' else c) core)
            \<and> map (\<lambda>c. if 65 \<le> (of_char c :: nat) \<and> (of_char c :: nat) \<le> 90
                       then char_of ((of_char c :: nat) + 32) else c) (bp_title p) = pre @ core @ post
            \<and> set pre \<subseteq> set [CHR 0x09, CHR 0x0A, CHR 0x0B, CHR 0x0C, CHR 0x0D,
                              CHR 0x1C, CHR 0x1D, CHR 0x1E, CHR 0x1F, CHR '' '']
            \<and> set post \<subseteq> set [CHR 0x09, CHR 0x0A, CHR 0x0B, CHR 0x0C, CHR 0x0D,
                              CHR 0x1C, CHR 0x1D, CHR 0x1E, CHR 0x1F, CHR '' '']
            \<and> (core \<noteq> [] \<longrightarrow>
                  hd core \<notin> set [CHR 0x09, CHR 0x0A, CHR 0x0B, CHR 0x0C, CHR 0x0D,
                              CHR 0x1C, CHR 0x1D, CHR 0x1E, CHR 0x1F, CHR '' '']
                  \<and> last core \<notin> set [CHR 0x09, CHR 0x0A, CHR 0x0B, CHR 0x0C, CHR 0x0D,
                              CHR 0x1C, CHR 0x1D, CHR 0x1E, CHR 0x1F, CHR '' '']))
       \<and> (bp_title p = ''Hello World'' \<longrightarrow>
            fst (create_post p now s) =
              Inr \<lparr>br_id = str_oid (next_id s), br_slug = ''hello-world''\<rparr>)
       \<and> (bp_title p = CHR 0x09 # '' Hello   World '' @ [CHR 0x0A] \<longrightarrow>
            fst (create_post p now s) =
              Inr \<lparr>br_id = str_oid (next_id s), br_slug = ''hello---world''\<rparr>)"
proof -
  define d where "d = \<lparr>doc_id = next_id s,
             doc_fields =
               [(''title'', VStr (bp_title p)), (''slug'', VStr (slug_of (bp_title p))),
                (''excerpt'', VStr (excerpt_of (bp_content p))),
                (''content'', VStr (bp_content p)),
                (''author_name'', VStr (bp_author_name p)), (''cover_image'', VNone),
                (''tags'', VList (case bp_tags p of None \<Rightarrow> [] | Some ts \<Rightarrow> ts)),
                (''status'', VStr ''published''), (''published_at'', VTime now)]\<rparr>"
  define core where "core = strip (lower (bp_title p))"
  have slug: "slug_of (bp_title p) = map (\<lambda>c. if c = CHR '' '' then CHR ''-'' else c) core"
    by (simp add: slug_of_def replace_space_def core_def)
  have run: "create_post p now s =
               (Inr \<lparr>br_id = str_oid (next_id s), br_slug = slug_of (bp_title p)\<rparr>,
                s\<lparr>colls := (colls s)(''blogpost'' := colls s ''blogpost'' @ [d]),
                  next_id := Suc (next_id s)\<rparr>)"
    by (simp add: d_def create_post_connected [OF assms])
  have field: "get d ''slug'' = VStr (slug_of (bp_title p))"
    by (simp add: d_def get_def get_default_def)
  from strip_decompose [of "lower (bp_title p)"]
  obtain pre post where dec: "lower (bp_title p) = pre @ core @ post"
    and pre: "\<forall>c\<in>set pre. is_space c" and post: "\<forall>c\<in>set post. is_space c"
    and ends: "core \<noteq> [] \<longrightarrow> \<not> is_space (hd core) \<and> \<not> is_space (last core)"
    unfolding core_def by blast
  have g1: "create_post p now s =
               (Inr \<lparr>br_id = str_oid (next_id s),
                     br_slug = map (\<lambda>c. if c = CHR '' '' then CHR ''-'' else c) core\<rparr>,
                s\<lparr>colls := (colls s)(''blogpost'' := colls s ''blogpost'' @ [d]),
                  next_id := Suc (next_id s)\<rparr>)"
    using run unfolding slug .
  have g2: "get d ''slug'' = VStr (map (\<lambda>c. if c = CHR '' '' then CHR ''-'' else c) core)"
    using field unfolding slug .
  have g3: "map (\<lambda>c. if 65 \<le> (of_char c :: nat) \<and> (of_char c :: nat) \<le> 90
                       then char_of ((of_char c :: nat) + 32) else c) (bp_title p) = pre @ core @ post"
    using dec unfolding lower_unfold .
  have g4: "set pre \<subseteq> set [CHR 0x09, CHR 0x0A, CHR 0x0B, CHR 0x0C, CHR 0x0D,
                              CHR 0x1C, CHR 0x1D, CHR 0x1E, CHR 0x1F, CHR '' '']"
    using pre unfolding is_space_iff by blast
  have g5: "set post \<subseteq> set [CHR 0x09, CHR 0x0A, CHR 0x0B, CHR 0x0C, CHR 0x0D,
                              CHR 0x1C, CHR 0x1D, CHR 0x1E, CHR 0x1F, CHR '' '']"
    using post unfolding is_space_iff by blast
  have g6: "core \<noteq> [] \<longrightarrow>
                  hd core \<notin> set [CHR 0x09, CHR 0x0A, CHR 0x0B, CHR 0x0C, CHR 0x0D,
                              CHR 0x1C, CHR 0x1D, CHR 0x1E, CHR 0x1F, CHR '' '']
                  \<and> last core \<notin> set [CHR 0x09, CHR 0x0A, CHR 0x0B, CHR 0x0C, CHR 0x0D,
                              CHR 0x1C, CHR 0x1D, CHR 0x1E, CHR 0x1F, CHR '' '']"
    using ends unfolding is_space_iff .
  have general: "\<exists>d pre core post.
            create_post p now s =
               (Inr \<lparr>br_id = str_oid (next_id s),
                     br_slug = map (\<lambda>c. if c = CHR '' '' then CHR ''-'' else c) core\<rparr>,
                s\<lparr>colls := (colls s)(''blogpost'' := colls s ''blogpost'' @ [d]),
                  next_id := Suc (next_id s)\<rparr>)
            \<and> get d ''slug'' = VStr (map (\<lambda>c. if c = CHR '' '' then CHR ''-'' else c) core)
            \<and> map (\<lambda>c. if 65 \<le> (of_char c :: nat) \<and> (of_char c :: nat) \<le> 90
                       then char_of ((of_char c :: nat) + 32) else c) (bp_title p) = pre @ core @ post
            \<and> set pre \<subseteq> set [CHR 0x09, CHR 0x0A, CHR 0x0B, CHR 0x0C, CHR 0x0D,
                              CHR 0x1C, CHR 0x1D, CHR 0x1E, CHR 0x1F, CHR '' '']
            \<and> set post \<subseteq> set [CHR 0x09, CHR 0x0A, CHR 0x0B, CHR 0x0C, CHR 0x0D,
                              CHR 0x1C, CHR 0x1D, CHR 0x1E, CHR 0x1F, CHR '' '']
            \<and> (core \<noteq> [] \<longrightarrow>
                  hd core \<notin> set [CHR 0x09, CHR 0x0A, CHR 0x0B, CHR 0x0C, CHR 0x0D,
                              CHR 0x1C, CHR 0x1D, CHR 0x1E, CHR 0x1F, CHR '' '']
                  \<and> last core \<notin> set [CHR 0x09, CHR 0x0A, CHR 0x0B, CHR 0x0C, CHR 0x0D,
                              CHR 0x1C, CHR 0x1D, CHR 0x1E, CHR 0x1F, CHR '' ''])"
    by (rule exI [of _ d], rule exI [of _ pre], rule exI [of _ core], rule exI [of _ post])
       (rule conjI [OF g1 conjI [OF g2 conjI [OF g3 conjI [OF g4 conjI [OF g5 g6]]]]])
  have hello: "slug_of ''Hello World'' = ''hello-world''" by code_simp
  have padded: "slug_of (CHR 0x09 # '' Hello   World '' @ [CHR 0x0A]) = ''hello---world''"
    by code_simp
  have h1: "bp_title p = ''Hello World'' \<longrightarrow>
            fst (create_post p now s) =
              Inr \<lparr>br_id = str_oid (next_id s), br_slug = ''hello-world''\<rparr>"
    using hello by (simp add: run)
  have h2: "bp_title p = CHR 0x09 # '' Hello   World '' @ [CHR 0x0A] \<longrightarrow>
            fst (create_post p now s) =
              Inr \<lparr>br_id = str_oid (next_id s), br_slug = ''hello---world''\<rparr>"
    using padded by (simp add: run)
  from general h1 h2 show ?thesis by (intro conjI)
qed

theorem create_post_slug_witness:
  "connected \<lparr>connected = True,
       colls = (\<lambda>_. [])(''blogpost'' := [\<lparr>doc_id = 0, doc_fields = [(''slug'', VStr ''hello-world'')]\<rparr>]),
       next_id = 1\<rparr>
   \<and> fst (create_post
        \<lparr>bp_title = ''Hello World'', bp_content = ''c'', bp_author_name = ''Ann'', bp_tags = None\<rparr> 7
        \<lparr>connected = True,
       colls = (\<lambda>_. [])(''blogpost'' := [\<lparr>doc_id = 0, doc_fields = [(''slug'', VStr ''hello-world'')]\<rparr>]),
       next_id = 1\<rparr>) = Inr \<lparr>br_id = str_oid 1, br_slug = ''hello-world''\<rparr>
   \<and> fst (create_post
        \<lparr>bp_title = CHR 0x09 # '' Hello   World '' @ [CHR 0x0A], bp_content = ''c'',
          bp_author_name = ''Ann'', bp_tags = None\<rparr> 7
        \<lparr>connected = True,
       colls = (\<lambda>_. [])(''blogpost'' := [\<lparr>doc_id = 0, doc_fields = [(''slug'', VStr ''hello-world'')]\<rparr>]),
       next_id = 1\<rparr>) = Inr \<lparr>br_id = str_oid 1, br_slug = ''hello---world''\<rparr>"
proof -
  let ?s = "\<lparr>connected = True,
       colls = (\<lambda>_. [])(''blogpost'' := [\<lparr>doc_id = 0, doc_fields = [(''slug'', VStr ''hello-world'')]\<rparr>]),
       next_id = 1\<rparr>"
  let ?p = "\<lparr>bp_title = ''Hello World'', bp_content = ''c'', bp_author_name = ''Ann'', bp_tags = None\<rparr>"
  let ?q = "\<lparr>bp_title = CHR 0x09 # '' Hello   World '' @ [CHR 0x0A], bp_content = ''c'',
          bp_author_name = ''Ann'', bp_tags = None\<rparr>"
  have c: "connected ?s" by simp
  have t: "bp_title ?p = ''Hello World''" by simp
  have u: "bp_title ?q = CHR 0x09 # '' Hello   World '' @ [CHR 0x0A]" by simp
  from create_post_slug [OF c, of ?p 7] t
  have a: "fst (create_post ?p 7 ?s) = Inr \<lparr>br_id = str_oid (next_id ?s), br_slug = ''hello-world''\<rparr>"
    by blast
  from create_post_slug [OF c, of ?q 7] u
  have b: "fst (create_post ?q 7 ?s) = Inr \<lparr>br_id = str_oid (next_id ?s), br_slug = ''hello---world''\<rparr>"
    by blast
  have n: "next_id ?s = 1" by simp
  from c a b show ?thesis unfolding n by (intro conjI)
qed

text \<open>
  Claim C7. On a reachable store \<open>list_posts\<close> returns, in storage order and without
  a limit, the view of every post whose status is "published" and of no other; the
  view holds the identifier as text, the title, the slug, the excerpt, the author's
  name, the cover image, the tags and the time of publication. On an unreachable
  store the failure of the lookup leaves the handler. A post that \<open>create_post\<close> has
  just stored is the last entry of the next listing.
\<close>

theorem list_posts_published:
  "(connected s \<longrightarrow>
      list_posts s =
        Inr (map post_view
              (filter (\<lambda>d. get d ''status'' = VStr ''published'') (colls s ''blogpost''))))
   \<and> (\<not> connected s \<longrightarrow> list_posts s = Inl StoreUnavailable)
   \<and> post_view d =
        \<lparr>pv_id = str_oid (doc_id d), pv_title = get d ''title'', pv_slug = get d ''slug'',
         pv_excerpt = get d ''excerpt'', pv_author_name = get d ''author_name'',
         pv_cover_image = get d ''cover_image'', pv_tags = get_default d ''tags'' (VList []),
         pv_published_at = get d ''published_at''\<rparr>
   \<and> (create_post p now s = (Inr r, s') \<longrightarrow>
        (\<exists>vs. list_posts s = Inr vs
           \<and> list_posts s' =
               Inr (vs @ [\<lparr>pv_id = br_id r, pv_title = VStr (bp_title p),
                           pv_slug = VStr (br_slug r),
                           pv_excerpt = VStr (excerpt_of (bp_content p)),
                           pv_author_name = VStr (bp_author_name p), pv_cover_image = VNone,
                           pv_tags = VList (case bp_tags p of None \<Rightarrow> [] | Some ts \<Rightarrow> ts),
                           pv_published_at = VTime now\<rparr>])))"
proof (intro conjI impI)
  assume "connected s"
  then show "list_posts s =
        Inr (map post_view
              (filter (\<lambda>d. get d ''status'' = VStr ''published'') (colls s ''blogpost'')))"
    by (rule list_posts_connected)
next
  assume "\<not> connected s"
  then show "list_posts s = Inl StoreUnavailable"
    by (simp add: list_posts_def get_documents_disconnected)
next
  show "post_view d =
        \<lparr>pv_id = str_oid (doc_id d), pv_title = get d ''title'', pv_slug = get d ''slug'',
         pv_excerpt = get d ''excerpt'', pv_author_name = get d ''author_name'',
         pv_cover_image = get d ''cover_image'', pv_tags = get_default d ''tags'' (VList []),
         pv_published_at = get d ''published_at''\<rparr>"
    by (simp add: post_view_def)
next
  assume run: "create_post p now s = (Inr r, s')"
  then have c: "connected s" by (rule create_post_success)
  define nd where "nd = \<lparr>doc_id = next_id s,
             doc_fields =
               [(''title'', VStr (bp_title p)), (''slug'', VStr (slug_of (bp_title p))),
                (''excerpt'', VStr (excerpt_of (bp_content p))),
                (''content'', VStr (bp_content p)),
                (''author_name'', VStr (bp_author_name p)), (''cover_image'', VNone),
                (''tags'', VList (case bp_tags p of None \<Rightarrow> [] | Some ts \<Rightarrow> ts)),
                (''status'', VStr ''published''), (''published_at'', VTime now)]\<rparr>"
  from run create_post_connected [OF c, of p now]
  have r: "r = \<lparr>br_id = str_oid (next_id s), br_slug = slug_of (bp_title p)\<rparr>"
    and s': "s' = s\<lparr>colls := (colls s)(''blogpost'' := colls s ''blogpost'' @ [nd]),
                    next_id := Suc (next_id s)\<rparr>"
    by (simp_all add: nd_def)
  have c': "connected s'" using c by (simp add: s')
  have pub: "get nd ''status'' = VStr ''published''"
    by (simp add: nd_def get_def get_default_def)
  have view: "post_view nd =
      \<lparr>pv_id = br_id r, pv_title = VStr (bp_title p), pv_slug = VStr (br_slug r),
       pv_excerpt = VStr (excerpt_of (bp_content p)),
       pv_author_name = VStr (bp_author_name p), pv_cover_image = VNone,
       pv_tags = VList (case bp_tags p of None \<Rightarrow> [] | Some ts \<Rightarrow> ts),
       pv_published_at = VTime now\<rparr>"
    by (simp add: nd_def r post_view_def get_def get_default_def)
  have "list_posts s' =
      Inr (map post_view
            (filter (\<lambda>d. get d ''status'' = VStr ''published'') (colls s ''blogpost''))
           @ [post_view nd])"
    using list_posts_connected [OF c'] pub by (simp add: s')
  with list_posts_connected [OF c] view
  show "\<exists>vs. list_posts s = Inr vs
           \<and> list_posts s' =
               Inr (vs @ [\<lparr>pv_id = br_id r, pv_title = VStr (bp_title p),
                           pv_slug = VStr (br_slug r),
                           pv_excerpt = VStr (excerpt_of (bp_content p)),
                           pv_author_name = VStr (bp_author_name p), pv_cover_image = VNone,
                           pv_tags = VList (case bp_tags p of None \<Rightarrow> [] | Some ts \<Rightarrow> ts),
                           pv_published_at = VTime now\<rparr>])"
    by simp
qed

theorem list_posts_published_witness:
  "list_posts \<lparr>connected = False, colls = (\<lambda>_. []), next_id = 0\<rparr> = Inl StoreUnavailable
   \<and> connected
      \<lparr>connected = True,
        colls = (\<lambda>_. [])(''blogpost'' :=
          [\<lparr>doc_id = 0, doc_fields = [(''title'', VStr ''D''), (''status'', VStr ''draft'')]\<rparr>,
           \<lparr>doc_id = 1, doc_fields = [(''title'', VStr ''P''), (''status'', VStr ''published'')]\<rparr>]),
        next_id = 2\<rparr>
   \<and> list_posts
      \<lparr>connected = True,
        colls = (\<lambda>_. [])(''blogpost'' :=
          [\<lparr>doc_id = 0, doc_fields = [(''title'', VStr ''D''), (''status'', VStr ''draft'')]\<rparr>,
           \<lparr>doc_id = 1, doc_fields = [(''title'', VStr ''P''), (''status'', VStr ''published'')]\<rparr>]),
        next_id = 2\<rparr>
     = Inr [\<lparr>pv_id = str_oid 1, pv_title = VStr ''P'', pv_slug = VNone, pv_excerpt = VNone,
            pv_author_name = VNone, pv_cover_image = VNone, pv_tags = VList [],
            pv_published_at = VNone\<rparr>]
   \<and> list_posts (snd (create_post
        \<lparr>bp_title = ''Hello World'', bp_content = ''c'', bp_author_name = ''Ann'',
          bp_tags = Some [''x'']\<rparr> 7
      \<lparr>connected = True,
        colls = (\<lambda>_. [])(''blogpost'' :=
          [\<lparr>doc_id = 0, doc_fields = [(''title'', VStr ''D''), (''status'', VStr ''draft'')]\<rparr>,
           \<lparr>doc_id = 1, doc_fields = [(''title'', VStr ''P''), (''status'', VStr ''published'')]\<rparr>]),
        next_id = 2\<rparr>))
     = Inr [\<lparr>pv_id = str_oid 1, pv_title = VStr ''P'', pv_slug = VNone, pv_excerpt = VNone,
            pv_author_name = VNone, pv_cover_image = VNone, pv_tags = VList [],
            pv_published_at = VNone\<rparr>,
          \<lparr>pv_id = str_oid 2, pv_title = VStr ''Hello World'', pv_slug = VStr ''hello-world'',
            pv_excerpt = VStr ''c'', pv_author_name = VStr ''Ann'', pv_cover_image = VNone,
            pv_tags = VList [''x''], pv_published_at = VTime 7\<rparr>]"
proof -
  let ?s = "\<lparr>connected = True,
        colls = (\<lambda>_. [])(''blogpost'' :=
          [\<lparr>doc_id = 0, doc_fields = [(''title'', VStr ''D''), (''status'', VStr ''draft'')]\<rparr>,
           \<lparr>doc_id = 1, doc_fields = [(''title'', VStr ''P''), (''status'', VStr ''published'')]\<rparr>]),
        next_id = 2\<rparr>"
  let ?p = "\<lparr>bp_title = ''Hello World'', bp_content = ''c'', bp_author_name = ''Ann'',
          bp_tags = Some [''x'']\<rparr>"
  let ?v1 = "\<lparr>pv_id = str_oid 1, pv_title = VStr ''P'', pv_slug = VNone, pv_excerpt = VNone,
            pv_author_name = VNone, pv_cover_image = VNone, pv_tags = VList [],
            pv_published_at = VNone\<rparr>"
  let ?r = "\<lparr>br_id = str_oid 2, br_slug = ''hello-world''\<rparr>"
  have c: "connected ?s" by simp
  have hello: "slug_of ''Hello World'' = ''hello-world''" by code_simp
  have run: "create_post ?p 7 ?s = (Inr ?r, snd (create_post ?p 7 ?s))"
    using create_post_connected [OF c, of ?p 7] by (simp add: hello)
  have ex: "excerpt_of ''c'' = ''c''" by (simp add: excerpt_of_def)
  note inst = list_posts_published [of ?s "\<lparr>doc_id = 1, doc_fields = [(''title'', VStr ''P''), (''status'', VStr ''published'')]\<rparr>" ?p 7 ?r "snd (create_post ?p 7 ?s)"]
  from inst c have "list_posts ?s =
        Inr (map post_view
              (filter (\<lambda>d. get d ''status'' = VStr ''published'') (colls ?s ''blogpost'')))"
    by blast
  then have before: "list_posts ?s = Inr [?v1]"
    by (simp add: get_def get_default_def post_view_def)
  from inst run obtain vs where "list_posts ?s = Inr vs"
    and "list_posts (snd (create_post ?p 7 ?s)) =
               Inr (vs @ [\<lparr>pv_id = br_id ?r, pv_title = VStr (bp_title ?p),
                           pv_slug = VStr (br_slug ?r),
                           pv_excerpt = VStr (excerpt_of (bp_content ?p)),
                           pv_author_name = VStr (bp_author_name ?p), pv_cover_image = VNone,
                           pv_tags = VList (case bp_tags ?p of None \<Rightarrow> [] | Some ts \<Rightarrow> ts),
                           pv_published_at = VTime 7\<rparr>])"
    by blast
  with before have "list_posts (snd (create_post ?p 7 ?s)) = Inr [?v1,
          \<lparr>pv_id = str_oid 2, pv_title = VStr ''Hello World'', pv_slug = VStr ''hello-world'',
            pv_excerpt = VStr ''c'', pv_author_name = VStr ''Ann'', pv_cover_image = VNone,
            pv_tags = VList [''x''], pv_published_at = VTime 7\<rparr>]"
    by (simp add: ex)
  moreover have "list_posts \<lparr>connected = False, colls = (\<lambda>_. []), next_id = 0\<rparr>
                   = Inl StoreUnavailable"
    using list_posts_published [of "\<lparr>connected = False, colls = (\<lambda>_. []), next_id = 0\<rparr>"]
    by simp
  ultimately show ?thesis using c before by blast
qed

section \<open>Contact\<close>

text \<open>
  Claim C8. On a reachable store \<open>submit_contact\<close> appends exactly one document to the
  collection \<open>contactmessage\<close>, the entry built from the payload with status "new",
  and returns its generated identifier with the status "received"; this holds with
  and without a company in the payload.
\<close>

theorem submit_contact_received:
  assumes "connected s"
  shows "submit_contact p s =
     (Inr \<lparr>cr_id = str_oid (next_id s), cr_status = ''received''\<rparr>,
      s\<lparr>colls := (colls s)(''contactmessage'' := colls s ''contactmessage'' @
           [\<lparr>doc_id = next_id s,
             doc_fields =
               [(''name'', VStr (cp_name p)), (''email'', VStr (cp_email p)),
                (''company'', (case cp_company p of None \<Rightarrow> VNone | Some c \<Rightarrow> VStr c)),
                (''message'', VStr (cp_message p)), (''status'', VStr ''new'')]\<rparr>]),
        next_id := Suc (next_id s)\<rparr>)"
  by (simp add: submit_contact_def create_document_connected [OF assms] mk_ContactMessage_def
      ContactMessage_fields_def opt_val_def)

theorem submit_contact_received_witness:
  "connected \<lparr>connected = True, colls = (\<lambda>_. []), next_id = 0\<rparr>
   \<and> submit_contact \<lparr>cp_name = ''Ann'', cp_email = ''Ann@X.org'', cp_company = None,
                      cp_message = ''hi''\<rparr>
        \<lparr>connected = True, colls = (\<lambda>_. []), next_id = 0\<rparr>
     = (Inr \<lparr>cr_id = str_oid 0, cr_status = ''received''\<rparr>,
        \<lparr>connected = True,
          colls = (\<lambda>_. [])(''contactmessage'' :=
            [\<lparr>doc_id = 0,
              doc_fields = [(''name'', VStr ''Ann''), (''email'', VStr ''Ann@X.org''),
                            (''company'', VNone), (''message'', VStr ''hi''),
                            (''status'', VStr ''new'')]\<rparr>]),
          next_id = 1\<rparr>)
   \<and> submit_contact \<lparr>cp_name = ''Ann'', cp_email = ''Ann@X.org'', cp_company = Some ''Acme'',
                      cp_message = ''hi''\<rparr>
        \<lparr>connected = True, colls = (\<lambda>_. []), next_id = 0\<rparr>
     = (Inr \<lparr>cr_id = str_oid 0, cr_status = ''received''\<rparr>,
        \<lparr>connected = True,
          colls = (\<lambda>_. [])(''contactmessage'' :=
            [\<lparr>doc_id = 0,
              doc_fields = [(''name'', VStr ''Ann''), (''email'', VStr ''Ann@X.org''),
                            (''company'', VStr ''Acme''), (''message'', VStr ''hi''),
                            (''status'', VStr ''new'')]\<rparr>]),
          next_id = 1\<rparr>)"
proof -
  let ?s = "\<lparr>connected = True, colls = (\<lambda>_. []), next_id = 0\<rparr>"
  have c: "connected ?s" by simp
  show ?thesis
    using submit_contact_received [OF c, of "\<lparr>cp_name = ''Ann'', cp_email = ''Ann@X.org'',
              cp_company = None, cp_message = ''hi''\<rparr>"]
          submit_contact_received [OF c, of "\<lparr>cp_name = ''Ann'', cp_email = ''Ann@X.org'',
              cp_company = Some ''Acme'', cp_message = ''hi''\<rparr>"]
    by simp
qed

section \<open>Health check\<close>

text \<open>
  Claim C9. \<open>test_database\<close> always returns a response, never an exception: when
  listing the collection names raises, the status text is the warning followed by
  at most the first 50 characters of the exception's text and the collection list
  stays empty; when listing succeeds, the response holds the first 10 names at most.
\<close>

theorem test_database_never_raises:
  "\<exists>r. test_database db env = Inr r
      \<and> length (hr_collections r) \<le> 10
      \<and> (\<forall>e. db = Some (Raises e) \<longrightarrow>
            hr_database r = warn_mark @ ''  Connected but Error: '' @ take 50 e
            \<and> length (take 50 e) \<le> 50 \<and> hr_collections r = [])
      \<and> (\<forall>ns. db = Some (Names ns) \<longrightarrow> hr_collections r = take 10 ns)"
proof (cases db)
  case None
  then show ?thesis by (simp add: test_database_def)
next
  case (Some h)
  then show ?thesis by (cases h) (simp_all add: test_database_def)
qed

theorem test_database_never_raises_witness:
  "(\<exists>r. test_database (Some (Raises (replicate 60 CHR ''x'')))
           \<lparr>DATABASE_URL = Some ''mongodb://h'', DATABASE_NAME = None\<rparr> = Inr r
        \<and> hr_database r = warn_mark @ ''  Connected but Error: '' @ replicate 50 CHR ''x''
        \<and> hr_collections r = [])
   \<and> (\<exists>r. test_database (Some (Names (replicate 12 ''c'')))
           \<lparr>DATABASE_URL = Some ''mongodb://h'', DATABASE_NAME = None\<rparr> = Inr r
        \<and> hr_collections r = replicate 10 ''c'')"
proof -
  let ?env = "\<lparr>DATABASE_URL = Some ''mongodb://h'', DATABASE_NAME = None\<rparr>"
  have t50: "take 50 (replicate 60 CHR ''x'') = replicate 50 CHR ''x''" by simp
  have t10: "take 10 (replicate 12 ''c'') = replicate 10 ''c''" by simp
  from test_database_never_raises [of "Some (Raises (replicate 60 CHR ''x''))" ?env]
  have a: "\<exists>r. test_database (Some (Raises (replicate 60 CHR ''x''))) ?env = Inr r
        \<and> hr_database r = warn_mark @ ''  Connected but Error: '' @ take 50 (replicate 60 CHR ''x'')
        \<and> hr_collections r = []"
    by blast
  from test_database_never_raises [of "Some (Names (replicate 12 ''c''))" ?env]
  have b: "\<exists>r. test_database (Some (Names (replicate 12 ''c''))) ?env = Inr r
        \<and> hr_collections r = take 10 (replicate 12 ''c'')"
    by blast
  from a b show ?thesis unfolding t50 t10 by blast
qed

end
